theory Spec2Isabelle
  imports Main
begin

section \<open>r3u http: a shallow embedding of the request/response core of r3u_http.c\<close>

text \<open>
  The program reads one HTTP request from the stream \<open>in\<close>, answers it on the stream
  \<open>out\<close> and exits. The embedding follows the first translation unit of the source
  (the one that serves standard input); the daemon variant repeats the same functions and
  differs in them only by the constant returned by \<open>guess_content_type\<close>.

  What is outside the program is made explicit:
  \<^item> the input stream is the list of bytes still to be read; end of file is the empty list;
  \<^item> the output stream is the list of bytes written so far; every \<open>fprintf\<close> and
    \<open>fwrite\<close> appends to it, and \<open>exit\<close> flushes it, so the bytes written before a
    fatal exit are part of the outcome;
  \<^item> the file system is a function from path strings to what \<open>lstat\<close> sees there;
  \<^item> the clock is the text that \<open>strftime\<close> produced for the current time;
  \<^item> \<open>log_exit\<close> is a value of type \<open>fatal\<close>: the function returns \<open>Inl\<close> of it.

  Memory is unbounded (\<open>xmalloc\<close> always returns), \<open>gmtime\<close> succeeds, and a
  \<open>read\<close> on an open regular file or a write to \<open>out\<close> does not fail with an I/O
  error: these four exits of the source are not branches of the model.
\<close>

subsection \<open>Bytes and the C library\<close>

abbreviation NUL :: char where "NUL \<equiv> CHR 0x00"
abbreviation HT :: char where "HT \<equiv> CHR 0x09"
abbreviation LF :: char where "LF \<equiv> CHR 0x0A"
abbreviation VT :: char where "VT \<equiv> CHR 0x0B"
abbreviation FF :: char where "FF \<equiv> CHR 0x0C"
abbreviation CR :: char where "CR \<equiv> CHR 0x0D"
abbreviation SP :: char where "SP \<equiv> CHR 0x20"

abbreviation CRLF :: "char list" where "CRLF \<equiv> [CR, LF]"

text \<open>\<open>BUFSIZ\<close> comes from \<open>stdio.h\<close>; 8192 is its value in the GNU C library.\<close>

definition BUFSIZ :: nat where
  "BUFSIZ = 8192"

definition MAX_REQUEST_BODY_LENGTH :: int where
  "MAX_REQUEST_BODY_LENGTH = 4194304"

definition SERVER_NAME :: string where
  "SERVER_NAME = ''r3u http''"

definition SERVER_VERSION :: string where
  "SERVER_VERSION = ''0.0.1''"

text \<open>The part of a buffer that the string functions see: the bytes before the first NUL.\<close>

definition c_str :: "char list \<Rightarrow> char list" where
  "c_str buf = takeWhile (\<lambda>c. c \<noteq> NUL) buf"

text \<open>The next line of the stream: the bytes up to and including the first line feed.\<close>

definition line_of :: "char list \<Rightarrow> char list" where
  "line_of inp = takeWhile (\<lambda>c. c \<noteq> LF) inp @ take 1 (dropWhile (\<lambda>c. c \<noteq> LF) inp)"

text \<open>
  \<open>fgets(buf, n, in)\<close> stores at most \<open>n - 1\<close> bytes, stopping after a line feed, and
  returns NULL when the stream is at its end. The result is the stored bytes and the rest of
  the stream.
\<close>

definition fgets :: "nat \<Rightarrow> char list \<Rightarrow> (char list \<times> char list) option" where
  "fgets n inp =
     (if inp = [] then None
      else let raw = take (n - 1) (line_of inp) in Some (raw, drop (length raw) inp))"

text \<open>\<open>strchr\<close>: the index of the first occurrence, \<open>None\<close> for the NULL pointer.\<close>

definition strchr :: "char list \<Rightarrow> char \<Rightarrow> nat option" where
  "strchr s c = (if c \<in> set s then Some (length (takeWhile (\<lambda>x. x \<noteq> c) s)) else None)"

definition strspn :: "char list \<Rightarrow> char list \<Rightarrow> nat" where
  "strspn s accept = length (takeWhile (\<lambda>c. c \<in> set accept) s)"

definition islower :: "char \<Rightarrow> bool" where
  "islower c = (97 \<le> (of_char c :: nat) \<and> (of_char c :: nat) \<le> 122)"

definition isupper :: "char \<Rightarrow> bool" where
  "isupper c = (65 \<le> (of_char c :: nat) \<and> (of_char c :: nat) \<le> 90)"

definition isdigit :: "char \<Rightarrow> bool" where
  "isdigit c = (48 \<le> (of_char c :: nat) \<and> (of_char c :: nat) \<le> 57)"

definition isspace :: "char \<Rightarrow> bool" where
  "isspace c = (c = SP \<or> c = HT \<or> c = LF \<or> c = VT \<or> c = FF \<or> c = CR)"

definition tolower :: "char \<Rightarrow> char" where
  "tolower c = (if isupper c then char_of ((of_char c :: nat) + 32) else c)"

text \<open>
  \<open>strcasecmp\<close> and \<open>strncasecmp\<close> are used by the source only in the test \<open>== 0\<close>;
  the model returns the truth value of that test.
\<close>

definition strcasecmp :: "char list \<Rightarrow> char list \<Rightarrow> bool" where
  "strcasecmp s1 s2 = (map tolower s1 = map tolower s2)"

definition strncasecmp :: "char list \<Rightarrow> char list \<Rightarrow> nat \<Rightarrow> bool" where
  "strncasecmp s1 s2 n = (map tolower (take n s1) = map tolower (take n s2))"

text \<open>
  \<open>strtol\<close> in base 10, as the GNU C library computes it: white space is skipped, a sign
  is optional, the digits that follow are accumulated, a value out of range is clamped, and
  no digits give 0. \<open>atol\<close> is \<open>strtol\<close>; \<open>atoi\<close> converts its result to \<open>int\<close>,
  keeping the low 32 bits.
\<close>

definition LONG_MAX :: int where
  "LONG_MAX = 9223372036854775807"

definition LONG_MIN :: int where
  "LONG_MIN = - 9223372036854775808"

definition digits_value :: "char list \<Rightarrow> int" where
  "digits_value s = foldl (\<lambda>a c. 10 * a + (int (of_char c) - 48)) 0 (takeWhile isdigit s)"

definition strtol :: "char list \<Rightarrow> int" where
  "strtol s =
     (case dropWhile isspace s of
        [] \<Rightarrow> 0
      | c # r \<Rightarrow>
          if c = CHR ''-'' then max LONG_MIN (- digits_value r)
          else if c = CHR ''+'' then min LONG_MAX (digits_value r)
          else min LONG_MAX (digits_value (c # r)))"

definition atol :: "char list \<Rightarrow> int" where
  "atol s = strtol s"

definition int_of_long :: "int \<Rightarrow> int" where
  "int_of_long x = (x + 2147483648) mod 4294967296 - 2147483648"

definition atoi :: "char list \<Rightarrow> int" where
  "atoi s = int_of_long (strtol s)"

text \<open>The conversions \<open>%d\<close> and \<open>%ld\<close> of \<open>fprintf\<close>.\<close>

fun show_nat :: "nat \<Rightarrow> string" where
  "show_nat n =
     (if n < 10 then [char_of (48 + n)] else show_nat (n div 10) @ [char_of (48 + n mod 10)])"

declare show_nat.simps [simp del]

definition show_int :: "int \<Rightarrow> string" where
  "show_int i = (if i < 0 then CHR ''-'' # show_nat (nat (- i)) else show_nat (nat i))"

subsection \<open>The data of the program\<close>

record HTTPHeaderField =
  field_name :: string
  field_value :: string

text \<open>
  The \<open>next\<close> pointers of the header fields are the list structure. A NULL \<open>body\<close> is the
  empty list. \<open>method_req\<close> is the member \<open>method\<close> and \<open>length_body\<close> the
  member \<open>length\<close>.
\<close>

record HTTPRequest =
  protocol_minor_version :: int
  method_req :: string
  path :: string
  header :: "HTTPHeaderField list"
  body :: "char list"
  length_body :: int

text \<open>\<open>info_size\<close> is not set by the source when \<open>info_ok\<close> is false, and not read then.\<close>

record FileInfo =
  info_path :: string
  info_size :: int
  info_ok :: bool

datatype fatal =
    NoRequestLine
  | ParseErrorRequestLine1
  | ParseErrorRequestLine2
  | ParseErrorRequestLine3
  | FailedToReadHeaderField
  | ParseErrorHeaderField
  | NegativeContentLength
  | RequestBodyTooLong
  | FailedToReadRequestBody
  | FailedToOpen

text \<open>
  What \<open>lstat\<close> finds at a path. A regular file has the size that \<open>lstat\<close> reports
  for it, the bytes that \<open>read\<close> delivers from it up to its end once it is open, and
  whether \<open>open\<close> for reading is permitted. The size and the bytes come from two system
  calls and are independent here: the size of a file of a virtual file system, or of a file
  that changes after \<open>lstat\<close>, is not the number of bytes that are read. A path that
  \<open>lstat\<close> cannot resolve is \<open>None\<close>.
\<close>

datatype node =
    RegularFile (size_reported: int) (contents: "char list") (readable: bool)
  | Directory
  | SymbolicLink
  | CharacterDevice
  | BlockDevice
  | Fifo
  | Socket

type_synonym filesystem = "string \<Rightarrow> node option"

text \<open>The run of the program: it returned, or it left through \<open>log_exit\<close>; with the output.\<close>

datatype outcome = Done "char list" | Aborted fatal "char list"

fun S_ISREG :: "node \<Rightarrow> bool" where
  "S_ISREG (RegularFile sz c r) = True"
| "S_ISREG nd = False"

fun st_size :: "node \<Rightarrow> int" where
  "st_size (RegularFile sz c r) = sz"
| "st_size nd = 0"

text \<open>\<open>open(path, O_RDONLY)\<close>, called by the source only where \<open>lstat\<close> found a regular file.\<close>

definition open_rdonly :: "filesystem \<Rightarrow> string \<Rightarrow> char list option" where
  "open_rdonly fs p =
     (case fs p of
        Some (RegularFile sz c r) \<Rightarrow> (if r then Some c else None)
      | _ \<Rightarrow> None)"

subsection \<open>Reading the request\<close>

definition uppcase :: "char list \<Rightarrow> char list" where
  "uppcase str = map (\<lambda>c. if islower c then char_of ((of_char c :: nat) - 32) else c) str"

definition blank_request :: HTTPRequest where
  "blank_request =
     \<lparr>protocol_minor_version = 0, method_req = [], path = [], header = [], body = [],
      length_body = 0\<rparr>"

definition read_request_line ::
  "HTTPRequest \<Rightarrow> char list \<Rightarrow> fatal + (HTTPRequest \<times> char list)" where
  "read_request_line req inp =
     (case fgets BUFSIZ inp of
        None \<Rightarrow> Inl NoRequestLine
      | Some (raw, rest) \<Rightarrow>
          let buf = c_str raw in
          (case strchr buf SP of
             None \<Rightarrow> Inl ParseErrorRequestLine1
           | Some i \<Rightarrow>
               let p1 = drop (Suc i) buf in
               (case strchr p1 SP of
                  None \<Rightarrow> Inl ParseErrorRequestLine2
                | Some j \<Rightarrow>
                    let p2 = drop (Suc j) p1 in
                    if strncasecmp p2 ''HTTP/1.'' (length ''HTTP/1.'')
                    then Inr (req\<lparr>method_req := uppcase (take i buf),
                                  path := take j p1,
                                  protocol_minor_version :=
                                    atoi (drop (length ''HTTP/1.'') p2)\<rparr>, rest)
                    else Inl ParseErrorRequestLine3)))"

text \<open>The result \<open>Inr (None, rest)\<close> is the NULL that ends the header section.\<close>

definition read_header_field ::
  "char list \<Rightarrow> fatal + (HTTPHeaderField option \<times> char list)" where
  "read_header_field inp =
     (case fgets BUFSIZ inp of
        None \<Rightarrow> Inl FailedToReadHeaderField
      | Some (raw, rest) \<Rightarrow>
          let buf = c_str raw in
          if buf = [LF] \<or> buf = CRLF then Inr (None, rest)
          else
            (case strchr buf (CHR '':'') of
               None \<Rightarrow> Inl ParseErrorHeaderField
             | Some i \<Rightarrow>
                 let p = drop (Suc i) buf in
                 Inr (Some \<lparr>field_name = take i buf,
                            field_value = drop (strspn p [SP, HT]) p\<rparr>, rest)))"

fun lookup_loop :: "HTTPHeaderField list \<Rightarrow> char list \<Rightarrow> char list option" where
  "lookup_loop [] name = None"
| "lookup_loop (h # hs) name =
     (if strcasecmp (field_name h) name then Some (field_value h) else lookup_loop hs name)"

definition lookup_header_field_value :: "HTTPRequest \<Rightarrow> char list \<Rightarrow> char list option" where
  "lookup_header_field_value req name = lookup_loop (header req) name"

definition content_length :: "HTTPRequest \<Rightarrow> fatal + int" where
  "content_length req =
     (case lookup_header_field_value req ''Content-Length'' of
        None \<Rightarrow> Inr 0
      | Some v \<Rightarrow>
          let len = atol v in
          if len < 0 then Inl NegativeContentLength else Inr len)"

text \<open>
  The loop of \<open>read_request\<close> that prepends each field it reads to \<open>req->header\<close>.
  Every \<open>fgets\<close> that returns takes at least one byte off the stream, so the loop ends.
\<close>

function read_header_fields ::
  "char list \<Rightarrow> HTTPHeaderField list \<Rightarrow> fatal + (HTTPHeaderField list \<times> char list)" where
  "read_header_fields inp hdr =
     (case read_header_field inp of
        Inl e \<Rightarrow> Inl e
      | Inr (None, rest) \<Rightarrow> Inr (hdr, rest)
      | Inr (Some h, rest) \<Rightarrow> read_header_fields rest (h # hdr))"
  by pat_completeness auto
termination
proof (relation "measure (\<lambda>(inp, hdr). length inp)")
  show "wf (measure (\<lambda>(inp, hdr). length inp))" by simp
next
  fix inp :: "char list" and hdr :: "HTTPHeaderField list" and x and ho rest h
  assume a: "read_header_field inp = Inr x" "(ho, rest) = x" "ho = Some h"
  from a obtain raw where f: "fgets BUFSIZ inp = Some (raw, rest)"
    by (auto simp: read_header_field_def Let_def split: option.splits if_splits)
  then have ne: "inp \<noteq> []" and raw: "raw = take (BUFSIZ - 1) (line_of inp)"
    and rest: "rest = drop (length raw) inp"
    by (auto simp: fgets_def Let_def split: if_splits)
  from ne have "line_of inp \<noteq> []"
    by (cases inp) (auto simp: line_of_def)
  with raw have "raw \<noteq> []" by (simp add: BUFSIZ_def)
  with rest ne have "length rest < length inp" by simp
  then show "((rest, h # hdr), (inp, hdr)) \<in> measure (\<lambda>(inp, hdr). length inp)" by simp
qed

declare read_header_fields.simps [simp del]

text \<open>
  \<open>fread(req->body, req->length, sizeof(char), in)\<close> reads one item of \<open>req->length\<close>
  bytes: it returns 1 when that many bytes are there and 0 otherwise.
\<close>

definition read_request :: "char list \<Rightarrow> fatal + (HTTPRequest \<times> char list)" where
  "read_request inp =
     (case read_request_line blank_request inp of
        Inl e \<Rightarrow> Inl e
      | Inr (req1, in1) \<Rightarrow>
          (case read_header_fields in1 [] of
             Inl e \<Rightarrow> Inl e
           | Inr (hdr, in2) \<Rightarrow>
               let req2 = req1\<lparr>header := hdr\<rparr> in
               (case content_length req2 of
                  Inl e \<Rightarrow> Inl e
                | Inr len \<Rightarrow>
                    let req3 = req2\<lparr>length_body := len\<rparr> in
                    if len = 0 then Inr (req3\<lparr>body := []\<rparr>, in2)
                    else if len > MAX_REQUEST_BODY_LENGTH then Inl RequestBodyTooLong
                    else if length in2 < nat len then Inl FailedToReadRequestBody
                    else Inr (req3\<lparr>body := take (nat len) in2\<rparr>, drop (nat len) in2))))"

subsection \<open>Finding the file\<close>

definition build_fspath :: "string \<Rightarrow> string \<Rightarrow> string" where
  "build_fspath docroot urlpath = docroot @ ''/'' @ urlpath"

definition get_fileinfo :: "filesystem \<Rightarrow> string \<Rightarrow> string \<Rightarrow> FileInfo" where
  "get_fileinfo fs docroot urlpath =
     (let p = build_fspath docroot urlpath;
          info = \<lparr>info_path = p, info_size = 0, info_ok = False\<rparr>
      in case fs p of
           None \<Rightarrow> info
         | Some st \<Rightarrow>
             if S_ISREG st then info\<lparr>info_ok := True, info_size := st_size st\<rparr> else info)"

subsection \<open>Writing the response\<close>

definition output_common_header_fields ::
  "string \<Rightarrow> HTTPRequest \<Rightarrow> char list \<Rightarrow> string \<Rightarrow> char list" where
  "output_common_header_fields now req out status =
     out @ ''HTTP/1.'' @ show_int (protocol_minor_version req) @ '' '' @ status @ CRLF
         @ ''Date: '' @ now @ CRLF
         @ ''Server: '' @ SERVER_NAME @ ''/'' @ SERVER_VERSION @ CRLF
         @ ''Connection: close'' @ CRLF"

definition guess_content_type :: "FileInfo \<Rightarrow> string" where
  "guess_content_type info = ''text/plain''"

definition method_not_allowed :: "string \<Rightarrow> HTTPRequest \<Rightarrow> char list \<Rightarrow> outcome" where
  "method_not_allowed now req out =
     Done (output_common_header_fields now req out ''405 Method Not Allowed'')"

definition not_implemented :: "string \<Rightarrow> HTTPRequest \<Rightarrow> char list \<Rightarrow> outcome" where
  "not_implemented now req out =
     Done (output_common_header_fields now req out ''501 Not Implemented'')"

definition not_found :: "string \<Rightarrow> HTTPRequest \<Rightarrow> char list \<Rightarrow> outcome" where
  "not_found now req out =
     Done (output_common_header_fields now req out ''404 Not Found'')"

text \<open>
  The loop that copies the open file to \<open>out\<close>: \<open>read\<close> delivers the next bytes of the
  file, at most \<open>BUFSIZ\<close> of them, and none at its end.
\<close>

function copy_loop :: "char list \<Rightarrow> char list \<Rightarrow> char list" where
  "copy_loop fd out =
     (let buf = take BUFSIZ fd in
      if length buf = 0 then out else copy_loop (drop BUFSIZ fd) (out @ buf))"
  by pat_completeness auto
termination
  by (relation "measure (\<lambda>(fd, out). length fd)") (auto simp: BUFSIZ_def)

declare copy_loop.simps [simp del]

definition do_file_response ::
  "filesystem \<Rightarrow> string \<Rightarrow> HTTPRequest \<Rightarrow> char list \<Rightarrow> string \<Rightarrow> outcome" where
  "do_file_response fs now req out docroot =
     (let info = get_fileinfo fs docroot (path req) in
      if info_ok info then
        let out1 = output_common_header_fields now req out ''200 OK'';
            out2 = out1 @ ''Content-Length: '' @ show_int (info_size info) @ CRLF;
            out3 = out2 @ ''Content-Type: '' @ guess_content_type info @ CRLF;
            out4 = out3 @ CRLF
        in if method_req req = ''HEAD'' then Done out4
           else
             (case open_rdonly fs (info_path info) of
                None \<Rightarrow> Aborted FailedToOpen out4
              | Some fd \<Rightarrow> Done (copy_loop fd out4))
      else not_found now req out)"

definition respond_to ::
  "filesystem \<Rightarrow> string \<Rightarrow> HTTPRequest \<Rightarrow> char list \<Rightarrow> string \<Rightarrow> outcome" where
  "respond_to fs now req out docroot =
     (if method_req req = ''GET'' then do_file_response fs now req out docroot
      else if method_req req = ''HEAD'' then do_file_response fs now req out docroot
      else if method_req req = ''POST'' then method_not_allowed now req out
      else not_implemented now req out)"

text \<open>\<open>service\<close> starts with nothing written to \<open>out\<close>.\<close>

definition service :: "filesystem \<Rightarrow> string \<Rightarrow> char list \<Rightarrow> string \<Rightarrow> outcome" where
  "service fs now inp docroot =
     (case read_request inp of
        Inl e \<Rightarrow> Aborted e []
      | Inr (req, rest) \<Rightarrow> respond_to fs now req [] docroot)"

subsection \<open>The request line as the specification writes it\<close>

text \<open>
  A method or path token of a request line: it holds no space, no line feed and no NUL.
\<close>

definition token :: "char list \<Rightarrow> bool" where
  "token s = (set s \<inter> {SP, LF, NUL} = {})"

text \<open>The line made of M, a space, P, a space, \<open>HTTP/1.\<close>, the decimal digits of n, CR and LF.\<close>

definition request_line :: "char list \<Rightarrow> char list \<Rightarrow> nat \<Rightarrow> char list" where
  "request_line M P n = M @ [SP] @ P @ [SP] @ ''HTTP/1.'' @ show_nat n @ CRLF"

subsection \<open>The header fields in the order of the wire\<close>

text \<open>
  The fields of a header section in the order in which they arrive: each one is read as
  \<open>read_header_field\<close> reads it, and the list is built front to back.
\<close>

function wire_fields :: "char list \<Rightarrow> fatal + (HTTPHeaderField list \<times> char list)" where
  "wire_fields inp =
     (case read_header_field inp of
        Inl e \<Rightarrow> Inl e
      | Inr (None, rest) \<Rightarrow> Inr ([], rest)
      | Inr (Some h, rest) \<Rightarrow>
          (case wire_fields rest of
             Inl e \<Rightarrow> Inl e
           | Inr (hs, rest') \<Rightarrow> Inr (h # hs, rest')))"
  by pat_completeness auto
termination
proof (relation "measure length")
  show "wf (measure length)" by simp
next
  fix inp :: "char list" and x and ho rest h
  assume a: "read_header_field inp = Inr x" "(ho, rest) = x" "ho = Some h"
  from a obtain raw where f: "fgets BUFSIZ inp = Some (raw, rest)"
    by (auto simp: read_header_field_def Let_def split: option.splits if_splits)
  then have ne: "inp \<noteq> []" and raw: "raw = take (BUFSIZ - 1) (line_of inp)"
    and rest: "rest = drop (length raw) inp"
    by (auto simp: fgets_def Let_def split: if_splits)
  from ne have "line_of inp \<noteq> []"
    by (cases inp) (auto simp: line_of_def)
  with raw have "raw \<noteq> []" by (simp add: BUFSIZ_def)
  with rest ne have "length rest < length inp" by simp
  then show "(rest, inp) \<in> measure length" by simp
qed

declare wire_fields.simps [simp del]

text \<open>
  The value of the last field of a list whose name is the given one, letter case apart.
\<close>

definition last_appearance :: "HTTPHeaderField list \<Rightarrow> char list \<Rightarrow> char list option" where
  "last_appearance ws name =
     (case filter (\<lambda>h. strcasecmp (field_name h) name) ws of
        [] \<Rightarrow> None
      | f # fs \<Rightarrow> Some (field_value (last (f # fs))))"

subsection \<open>Values that are not numbers\<close>

text \<open>
  The digits with which a string starts, after white space and one sign. A string is not
  numeric when there are none.
\<close>

definition leading_digits :: "char list \<Rightarrow> char list" where
  "leading_digits s =
     (case dropWhile isspace s of
        [] \<Rightarrow> []
      | c # r \<Rightarrow>
          if c = CHR ''-'' then takeWhile isdigit r
          else if c = CHR ''+'' then takeWhile isdigit r
          else takeWhile isdigit (c # r))"

definition non_numeric :: "char list \<Rightarrow> bool" where
  "non_numeric s = (leading_digits s = [])"

subsection \<open>The header block of a 200 response, as the specification lists it\<close>

text \<open>
  The status line with the minor version of the request, the fields Date, Server and
  Connection, the field Content-Length with the number \<open>n\<close>, the field Content-Type, and
  the blank line, after what \<open>out\<close> already holds.
\<close>

definition header_block_200 :: "string \<Rightarrow> int \<Rightarrow> char list \<Rightarrow> int \<Rightarrow> char list" where
  "header_block_200 now minor out n =
     out @ ''HTTP/1.'' @ show_int minor @ '' 200 OK'' @ CRLF
         @ ''Date: '' @ now @ CRLF
         @ ''Server: r3u http/0.0.1'' @ CRLF
         @ ''Connection: close'' @ CRLF
         @ ''Content-Length: '' @ show_int n @ CRLF
         @ ''Content-Type: text/plain'' @ CRLF
         @ CRLF"

section \<open>Properties\<close>

subsection \<open>Lines, C strings and numbers\<close>

lemma takeWhile_neq_append:
  "c \<notin> set xs \<Longrightarrow>
     takeWhile (\<lambda>x. x \<noteq> c) (xs @ ys) = xs @ takeWhile (\<lambda>x. x \<noteq> c) ys"
  by (induction xs) auto

lemma dropWhile_neq_append:
  "c \<notin> set xs \<Longrightarrow> dropWhile (\<lambda>x. x \<noteq> c) (xs @ ys) = dropWhile (\<lambda>x. x \<noteq> c) ys"
  by (induction xs) auto

lemma takeWhile_neq_id: "c \<notin> set xs \<Longrightarrow> takeWhile (\<lambda>x. x \<noteq> c) xs = xs"
  by (induction xs) auto

lemma line_of_append: "LF \<notin> set l \<Longrightarrow> line_of (l @ LF # rest) = l @ [LF]"
  by (simp add: line_of_def takeWhile_neq_append dropWhile_neq_append)

lemma fgets_line:
  assumes "LF \<notin> set l" and "length l + 2 \<le> n"
  shows "fgets n (l @ LF # rest) = Some (l @ [LF], rest)"
  using assms by (simp add: fgets_def line_of_append)

lemma c_str_id: "NUL \<notin> set s \<Longrightarrow> c_str s = s"
  by (simp add: c_str_def takeWhile_neq_id)

lemma strchr_append: "c \<notin> set a \<Longrightarrow> strchr (a @ c # b) c = Some (length a)"
  by (simp add: strchr_def takeWhile_neq_append)

lemma strchr_None: "c \<notin> set s \<Longrightarrow> strchr s c = None"
  by (simp add: strchr_def)

lemma isdigit_char_of: "d < 10 \<Longrightarrow> isdigit (char_of (48 + d :: nat))"
  by (simp add: isdigit_def)

lemma show_nat_isdigit: "c \<in> set (show_nat n) \<Longrightarrow> isdigit c"
proof (induction n rule: show_nat.induct)
  case (1 n)
  show ?case
  proof (cases "n < 10")
    case True
    with "1.prems" show ?thesis
      by (simp add: show_nat.simps [of n] isdigit_char_of)
  next
    case False
    with "1.prems" "1.IH" show ?thesis
      by (auto simp: show_nat.simps [of n] isdigit_char_of)
  qed
qed

lemma show_nat_not_Nil: "show_nat n \<noteq> []"
  by (simp add: show_nat.simps [of n])

lemma digit_fold_show_nat:
  "foldl (\<lambda>a c. 10 * a + (int (of_char c) - 48)) 0 (show_nat n) = int n"
proof (induction n rule: show_nat.induct)
  case (1 n)
  show ?case
  proof (cases "n < 10")
    case True
    then show ?thesis by (simp add: show_nat.simps [of n])
  next
    case False
    have "10 * int (n div 10) + int (n mod 10) = int n"
      by (simp add: of_nat_div of_nat_mod)
    with False "1.IH" show ?thesis
      by (simp add: show_nat.simps [of n])
  qed
qed

lemma isdigit_facts:
  "isdigit c \<Longrightarrow>
     c \<noteq> SP \<and> c \<noteq> LF \<and> c \<noteq> NUL \<and> c \<noteq> CR \<and> c \<noteq> CHR ''-'' \<and> c \<noteq> CHR ''+''
     \<and> \<not> isspace c"
  by (auto simp: isdigit_def isspace_def)

lemma not_isdigit_CR: "\<not> isdigit CR"
  by (simp add: isdigit_def)

lemma digits_value_show_nat: "digits_value (show_nat n @ CR # t) = int n"
proof -
  have "takeWhile isdigit (show_nat n @ CR # t) = show_nat n"
    by (simp add: takeWhile_append2 show_nat_isdigit not_isdigit_CR)
  then show ?thesis by (simp add: digits_value_def digit_fold_show_nat)
qed

lemma strtol_show_nat:
  assumes "int n \<le> LONG_MAX"
  shows "strtol (show_nat n @ CR # t) = int n"
proof -
  obtain c r where cr: "show_nat n = c # r"
    using show_nat_not_Nil by (cases "show_nat n") auto
  then have d: "isdigit c" using show_nat_isdigit [of c n] by simp
  have "digits_value (c # r @ CR # t) = int n"
    using digits_value_show_nat [of n t] cr by simp
  with d assms show ?thesis
    using isdigit_facts [OF d] by (simp add: strtol_def cr)
qed

lemma atoi_show_nat:
  assumes "n < 2147483648"
  shows "atoi (show_nat n @ CR # t) = int n"
proof -
  from assms have "int n \<le> LONG_MAX" by (simp add: LONG_MAX_def)
  then have "strtol (show_nat n @ CR # t) = int n" by (rule strtol_show_nat)
  with assms show ?thesis by (simp add: atoi_def int_of_long_def)
qed

subsection \<open>The request line\<close>

lemma token_D: "token s \<Longrightarrow> SP \<notin> set s \<and> LF \<notin> set s \<and> NUL \<notin> set s"
  by (auto simp: token_def)

lemma show_nat_free:
  "SP \<notin> set (show_nat n) \<and> LF \<notin> set (show_nat n) \<and> NUL \<notin> set (show_nat n)"
  using show_nat_isdigit isdigit_facts by blast

lemma strncasecmp_prefix: "strncasecmp (p @ t) p (length p)"
  by (simp add: strncasecmp_def)

lemma read_request_line_valid:
  assumes M: "token M" and P: "token P" and n: "n < 2147483648"
    and len: "length (request_line M P n) < BUFSIZ"
  shows "read_request_line req (request_line M P n @ rest) =
           Inr (req\<lparr>method_req := uppcase M, path := P, protocol_minor_version := int n\<rparr>, rest)"
proof -
  define p2 where "p2 = ''HTTP/1.'' @ show_nat n @ CRLF"
  define p1 where "p1 = P @ SP # p2"
  define buf where "buf = M @ SP # p1"
  define l where "l = M @ SP # P @ SP # ''HTTP/1.'' @ show_nat n @ [CR]"
  have buf_l: "buf = l @ [LF]"
    by (simp add: buf_def p1_def p2_def l_def)
  have inp: "request_line M P n @ rest = l @ LF # rest"
    by (simp add: request_line_def l_def)
  have lf: "LF \<notin> set l"
    using token_D [OF M] token_D [OF P] show_nat_free [of n] by (simp add: l_def)
  have nul: "NUL \<notin> set buf"
    using token_D [OF M] token_D [OF P] show_nat_free [of n] by (simp add: buf_l l_def)
  have "length l + 2 \<le> BUFSIZ"
    using len by (simp add: request_line_def l_def)
  then have fg: "fgets BUFSIZ (request_line M P n @ rest) = Some (buf, rest)"
    unfolding inp buf_l using lf by (rule fgets_line [rotated])
  have cs: "c_str buf = buf" using nul by (rule c_str_id)
  have s1: "strchr buf SP = Some (length M)"
    unfolding buf_def using token_D [OF M] by (simp add: strchr_append)
  have d1: "drop (Suc (length M)) buf = p1" and t1: "take (length M) buf = M"
    by (simp_all add: buf_def)
  have s2: "strchr p1 SP = Some (length P)"
    unfolding p1_def using token_D [OF P] by (simp add: strchr_append)
  have d2: "drop (Suc (length P)) p1 = p2" and t2: "take (length P) p1 = P"
    by (simp_all add: p1_def)
  have pre: "strncasecmp p2 ''HTTP/1.'' (length ''HTTP/1.'')"
    unfolding p2_def by (rule strncasecmp_prefix)
  have "drop (length ''HTTP/1.'') p2 = show_nat n @ CR # [LF]"
    by (simp add: p2_def)
  then have at: "atoi (drop (length ''HTTP/1.'') p2) = int n"
    using atoi_show_nat [OF n] by simp
  show ?thesis
    unfolding read_request_line_def fg
    by (simp only: option.case prod.case Let_def cs s1 d1 t1 s2 d2 t2 pre at if_True)
qed

lemma count_one_rest:
  assumes "count_list s c = 1"
  shows "c \<notin> set (drop (Suc (length (takeWhile (\<lambda>x. x \<noteq> c) s))) s)"
  using assms
proof (induction s)
  case Nil
  then show ?case by simp
next
  case (Cons a s)
  then show ?case by (auto simp: count_list_0_iff split: if_splits)
qed

lemma read_request_line_missing_space:
  assumes fg: "fgets BUFSIZ inp = Some (raw, rest)"
    and c: "count_list (c_str raw) SP < 2"
  shows "read_request_line req inp =
           (if SP \<in> set (c_str raw) then Inl ParseErrorRequestLine2
            else Inl ParseErrorRequestLine1)"
proof (cases "SP \<in> set (c_str raw)")
  case False
  then show ?thesis
    by (simp add: read_request_line_def fg Let_def strchr_None)
next
  case True
  then have "count_list (c_str raw) SP \<noteq> 0" by (simp add: count_list_0_iff)
  with c have "count_list (c_str raw) SP = 1" by simp
  then have "SP \<notin> set (drop (Suc (length (takeWhile (\<lambda>x. x \<noteq> SP) (c_str raw)))) (c_str raw))"
    by (rule count_one_rest)
  then have "strchr (drop (Suc (length (takeWhile (\<lambda>x. x \<noteq> SP) (c_str raw)))) (c_str raw)) SP
               = None"
    by (rule strchr_None)
  with True show ?thesis
    by (simp add: read_request_line_def fg Let_def strchr_def)
qed

lemma long_line_fgets:
  "fgets BUFSIZ (request_line ''GET'' (CHR ''/'' # replicate 8192 (CHR ''a'')) 1)
     = Some (''GET /'' @ replicate 8186 (CHR ''a''),
             replicate 6 (CHR ''a'') @ '' HTTP/1.1'' @ CRLF)"
proof -
  have sn: "show_nat 1 = ''1''" by code_simp
  define l where "l = ''GET /'' @ replicate 8192 (CHR ''a'') @ '' HTTP/1.1'' @ [CR]"
  have inp: "request_line ''GET'' (CHR ''/'' # replicate 8192 (CHR ''a'')) 1 = l @ LF # []"
    unfolding request_line_def sn l_def by simp
  have "LF \<notin> set l" by (simp add: l_def)
  then have lo: "line_of (l @ LF # []) = l @ [LF]" by (rule line_of_append)
  have tk: "take (BUFSIZ - 1) (l @ [LF]) = ''GET /'' @ replicate 8186 (CHR ''a'')"
    by (simp add: l_def BUFSIZ_def)
  have dr: "drop (length (''GET /'' @ replicate 8186 (CHR ''a''))) (l @ [LF])
      = replicate 6 (CHR ''a'') @ '' HTTP/1.1'' @ CRLF"
    by (simp add: l_def)
  show ?thesis
    unfolding inp fgets_def lo Let_def tk dr by simp
qed

text \<open>
  Claim C2, as the specification states it, for a request line longer than the line buffer:
  the method \<open>GET\<close>, a path of 8193 bytes and the version 1 make a valid request line, and
  \<open>fgets\<close> hands the parser its first 8191 bytes only, in which the second space is missing.
\<close>

theorem long_request_line_counterexample:
  "token ''GET'' \<and> token (CHR ''/'' # replicate 8192 (CHR ''a''))
   \<and> read_request_line blank_request
        (request_line ''GET'' (CHR ''/'' # replicate 8192 (CHR ''a'')) 1)
      = Inl ParseErrorRequestLine2"
proof -
  have cs: "c_str (''GET /'' @ replicate 8186 (CHR ''a'')) = ''GET /'' @ replicate 8186 (CHR ''a'')"
    by (rule c_str_id) simp
  have cnt: "count_list (c_str (''GET /'' @ replicate 8186 (CHR ''a''))) SP < 2"
    unfolding cs by (simp add: count_list_0_iff)
  have "read_request_line blank_request
        (request_line ''GET'' (CHR ''/'' # replicate 8192 (CHR ''a'')) 1)
      = Inl ParseErrorRequestLine2"
    using read_request_line_missing_space [OF long_line_fgets cnt, of blank_request]
    unfolding cs by simp
  then show ?thesis by (simp add: token_def)
qed

text \<open>
  Claim C2, amended: a request line that fits the line buffer (fewer than \<open>BUFSIZ\<close> bytes
  with its CR and LF), whose method and path hold no space, line feed or NUL and whose minor
  version is a decimal number below \<open>2^31\<close>, is parsed into the upper-cased method, the
  path as it is and that minor version, and the rest of the stream is left to be read. When
  the line that \<open>fgets\<close> delivers holds fewer than two spaces, the parse is fatal and no
  request is returned.
\<close>

theorem read_request_line_parses:
  "(token M \<and> token P \<and> n < 2147483648 \<and> length (request_line M P n) < BUFSIZ \<longrightarrow>
      read_request_line req (request_line M P n @ rest) =
        Inr (req\<lparr>method_req := uppcase M, path := P, protocol_minor_version := int n\<rparr>, rest))
   \<and> (fgets BUFSIZ inp = Some (raw, rest') \<and> count_list (c_str raw) SP < 2 \<longrightarrow>
      read_request_line req inp =
        (if SP \<in> set (c_str raw) then Inl ParseErrorRequestLine2
         else Inl ParseErrorRequestLine1))"
  using read_request_line_valid read_request_line_missing_space by blast

theorem read_request_line_parses_witness:
  "read_request_line blank_request (''get /index.html HTTP/1.1'' @ CRLF @ ''Host: x'' @ CRLF)
     = Inr (blank_request\<lparr>method_req := ''GET'', path := ''/index.html'',
                          protocol_minor_version := 1\<rparr>, ''Host: x'' @ CRLF)
   \<and> read_request_line blank_request (''GET /index.html'' @ CRLF) = Inl ParseErrorRequestLine2
   \<and> read_request_line blank_request (''GET'' @ CRLF) = Inl ParseErrorRequestLine1"
proof -
  have sn: "show_nat (Suc 0) = ''1''" by code_simp
  have up: "uppcase ''get'' = ''GET''" by code_simp
  have h: "token ''get'' \<and> token ''/index.html'' \<and> (1::nat) < 2147483648
           \<and> length (request_line ''get'' ''/index.html'' 1) < BUFSIZ"
    by (simp add: token_def request_line_def sn BUFSIZ_def)
  have f2: "fgets BUFSIZ (''GET /index.html'' @ CRLF) = Some (''GET /index.html'' @ CRLF, [])"
    by (simp add: fgets_def line_of_def BUFSIZ_def)
  have c2: "count_list (c_str (''GET /index.html'' @ CRLF)) SP < 2"
    by (simp add: c_str_def)
  have f3: "fgets BUFSIZ (''GET'' @ CRLF) = Some (''GET'' @ CRLF, [])"
    by (simp add: fgets_def line_of_def BUFSIZ_def)
  have c3: "count_list (c_str (''GET'' @ CRLF)) SP < 2"
    by (simp add: c_str_def)
  have a: "read_request_line blank_request (request_line ''get'' ''/index.html'' 1 @ ''Host: x'' @ CRLF)
     = Inr (blank_request\<lparr>method_req := uppcase ''get'', path := ''/index.html'',
                          protocol_minor_version := int 1\<rparr>, ''Host: x'' @ CRLF)"
    using read_request_line_parses [of "''get''" "''/index.html''" 1 blank_request "''Host: x'' @ CRLF"] h
    by blast
  have b: "read_request_line blank_request (''GET /index.html'' @ CRLF) = Inl ParseErrorRequestLine2"
    using read_request_line_parses [of _ _ _ blank_request _ "''GET /index.html'' @ CRLF"
        "''GET /index.html'' @ CRLF" "[]"] f2 c2
    by (simp add: c_str_def)
  have c: "read_request_line blank_request (''GET'' @ CRLF) = Inl ParseErrorRequestLine1"
    using read_request_line_parses [of _ _ _ blank_request _ "''GET'' @ CRLF" "''GET'' @ CRLF" "[]"]
      f3 c3
    by (simp add: c_str_def)
  from a have a': "read_request_line blank_request
      (''get /index.html HTTP/1.1'' @ CRLF @ ''Host: x'' @ CRLF)
     = Inr (blank_request\<lparr>method_req := ''GET'', path := ''/index.html'',
                          protocol_minor_version := 1\<rparr>, ''Host: x'' @ CRLF)"
    by (simp add: request_line_def sn up)
  from a' b c show ?thesis by blast
qed

subsection \<open>The response to a request\<close>

lemma read_header_field_end: "read_header_field (CR # LF # rest) = Inr (None, rest)"
  by (simp add: read_header_field_def fgets_def line_of_def BUFSIZ_def c_str_def)

lemma read_header_fields_end: "read_header_fields (CR # LF # rest) hdr = Inr (hdr, rest)"
  by (simp add: read_header_fields.simps [of "CR # LF # rest"] read_header_field_end)

text \<open>
  Claim C1, at the request of the specification's own scenario: a HEAD request for a file
  that is not there. The bytes written are the status line and the three common header
  fields; the blank line that ends a header section is not written.
\<close>

theorem head_missing_file_response:
  "service (\<lambda>p. None) ''Tue, 03 Nov 2026 10:00:00 GMT''
     (''HEAD /missing.txt HTTP/1.0'' @ CRLF @ CRLF) ''/var/www''
   = Done (''HTTP/1.0 404 Not Found'' @ CRLF
        @ ''Date: Tue, 03 Nov 2026 10:00:00 GMT'' @ CRLF
        @ ''Server: r3u http/0.0.1'' @ CRLF
        @ ''Connection: close'' @ CRLF)"
proof -
  have sn: "show_nat 0 = ''0''" by code_simp
  have up: "uppcase ''HEAD'' = ''HEAD''" by code_simp
  have "read_request_line blank_request (request_line ''HEAD'' ''/missing.txt'' 0 @ CRLF)
      = Inr (blank_request\<lparr>method_req := uppcase ''HEAD'', path := ''/missing.txt'',
               protocol_minor_version := int 0\<rparr>, CRLF)"
    by (rule read_request_line_valid) (simp_all add: token_def request_line_def sn BUFSIZ_def)
  then have rl: "read_request_line blank_request (''HEAD /missing.txt HTTP/1.0'' @ CRLF @ CRLF)
      = Inr (blank_request\<lparr>method_req := ''HEAD'', path := ''/missing.txt'',
               protocol_minor_version := 0\<rparr>, CRLF)"
    by (simp add: request_line_def sn up)
  have rq: "read_request (''HEAD /missing.txt HTTP/1.0'' @ CRLF @ CRLF)
      = Inr (blank_request\<lparr>method_req := ''HEAD'', path := ''/missing.txt'',
               protocol_minor_version := 0, header := [], length_body := 0, body := []\<rparr>, [])"
    unfolding read_request_def rl
    by (simp add: read_header_fields_end content_length_def lookup_header_field_value_def)
  show ?thesis
    unfolding service_def rq
    by (simp add: respond_to_def do_file_response_def get_fileinfo_def
        not_found_def output_common_header_fields_def blank_request_def show_int_def sn
        SERVER_NAME_def SERVER_VERSION_def)
qed

lemma copy_loop_append: "copy_loop fd out = out @ fd"
proof (induction fd out rule: copy_loop.induct)
  case (1 fd out)
  show ?case
  proof (cases "length (take BUFSIZ fd) = 0")
    case True
    then have "fd = []" by (cases fd) (simp_all add: BUFSIZ_def)
    then show ?thesis by (simp add: copy_loop.simps [of "[]"])
  next
    case False
    with "1.IH" [OF refl False] have "copy_loop (drop BUFSIZ fd) (out @ take BUFSIZ fd)
        = (out @ take BUFSIZ fd) @ drop BUFSIZ fd" by simp
    with False show ?thesis by (simp add: copy_loop.simps [of fd out] Let_def)
  qed
qed

lemma get_fileinfo_regular:
  "fs (build_fspath docroot urlpath) = Some (RegularFile sz c r) \<Longrightarrow>
     get_fileinfo fs docroot urlpath =
       \<lparr>info_path = build_fspath docroot urlpath, info_size = sz, info_ok = True\<rparr>"
  by (simp add: get_fileinfo_def Let_def)

lemma do_file_response_regular:
  assumes "fs (build_fspath docroot (path req)) = Some (RegularFile sz c r)"
  shows "do_file_response fs now req out docroot =
    (if method_req req = ''HEAD'' then
       Done (header_block_200 now (protocol_minor_version req) out sz)
     else if r then
       Done (header_block_200 now (protocol_minor_version req) out sz @ c)
     else
       Aborted FailedToOpen (header_block_200 now (protocol_minor_version req) out sz))"
  using assms
  by (simp add: do_file_response_def get_fileinfo_regular Let_def
      guess_content_type_def open_rdonly_def copy_loop_append header_block_200_def
      output_common_header_fields_def SERVER_NAME_def SERVER_VERSION_def)

lemma read_request_no_fields:
  assumes "token M" and "token P" and "n < 2147483648"
    and "length (request_line M P n) < BUFSIZ"
  shows "read_request (request_line M P n @ CRLF @ rest) =
     Inr (blank_request\<lparr>method_req := uppcase M, path := P, protocol_minor_version := int n,
            header := [], length_body := 0, body := []\<rparr>, rest)"
proof -
  have rl: "read_request_line blank_request (request_line M P n @ CRLF @ rest) =
     Inr (blank_request\<lparr>method_req := uppcase M, path := P,
            protocol_minor_version := int n\<rparr>, CRLF @ rest)"
    using assms by (rule read_request_line_valid)
  show ?thesis
    unfolding read_request_def rl
    by (simp add: read_header_fields_end content_length_def lookup_header_field_value_def)
qed

text \<open>
  Claim C3, amended: for a GET or HEAD request whose path resolves to a regular file, the
  response starts with the 200 header block, in which Content-Length is the size that
  \<open>lstat\<close> reports for the file. For HEAD nothing follows the header block. For GET, when
  the file can be opened for reading, the bytes that follow are the bytes read from the file
  up to its end, as they are; they are as many as Content-Length says when the reported size
  is the number of bytes the file delivers, and the program does not compare the two. When
  the file cannot be opened, the header block has been written already and the program
  leaves through \<open>log_exit\<close>, with no body.
\<close>

theorem regular_file_response:
  "fs (build_fspath docroot (path req)) = Some (RegularFile sz c r) \<longrightarrow>
   (method_req req = ''HEAD'' \<longrightarrow>
      respond_to fs now req out docroot =
        Done (header_block_200 now (protocol_minor_version req) out sz))
   \<and> (method_req req = ''GET'' \<and> r \<longrightarrow>
      respond_to fs now req out docroot =
        Done (header_block_200 now (protocol_minor_version req) out sz @ c))
   \<and> (method_req req = ''GET'' \<and> r \<and> sz = int (length c) \<longrightarrow>
      respond_to fs now req out docroot =
        Done (header_block_200 now (protocol_minor_version req) out (int (length c)) @ c))
   \<and> (method_req req = ''GET'' \<and> \<not> r \<longrightarrow>
      respond_to fs now req out docroot =
        Aborted FailedToOpen (header_block_200 now (protocol_minor_version req) out sz))"
proof (intro impI)
  assume f: "fs (build_fspath docroot (path req)) = Some (RegularFile sz c r)"
  show "(method_req req = ''HEAD'' \<longrightarrow>
      respond_to fs now req out docroot =
        Done (header_block_200 now (protocol_minor_version req) out sz))
   \<and> (method_req req = ''GET'' \<and> r \<longrightarrow>
      respond_to fs now req out docroot =
        Done (header_block_200 now (protocol_minor_version req) out sz @ c))
   \<and> (method_req req = ''GET'' \<and> r \<and> sz = int (length c) \<longrightarrow>
      respond_to fs now req out docroot =
        Done (header_block_200 now (protocol_minor_version req) out (int (length c)) @ c))
   \<and> (method_req req = ''GET'' \<and> \<not> r \<longrightarrow>
      respond_to fs now req out docroot =
        Aborted FailedToOpen (header_block_200 now (protocol_minor_version req) out sz))"
    by (simp add: respond_to_def do_file_response_regular [of fs docroot req sz c r, OF f])
qed

lemma show_nat_3: "show_nat 3 = ''3''" by code_simp
lemma show_nat_0: "show_nat 0 = ''0''" by code_simp
lemma uppcase_GET: "uppcase ''GET'' = ''GET''" by code_simp

lemma read_request_get:
  assumes "token P" and "length P + 20 \<le> BUFSIZ"
  shows "read_request (''GET '' @ P @ '' HTTP/1.0'' @ CRLF @ CRLF) =
     Inr (blank_request\<lparr>method_req := ''GET'', path := P, protocol_minor_version := 0,
            header := [], length_body := 0, body := []\<rparr>, [])"
proof -
  have "read_request (request_line ''GET'' P 0 @ CRLF @ []) =
     Inr (blank_request\<lparr>method_req := uppcase ''GET'', path := P,
            protocol_minor_version := int 0,
            header := [], length_body := 0, body := []\<rparr>, [])"
    using assms
    by (intro read_request_no_fields) (simp_all add: token_def request_line_def show_nat_0)
  then show ?thesis
    by (simp add: request_line_def show_nat_0 uppcase_GET)
qed

text \<open>
  Claim C3, as the specification states it. For a regular file that the server has no
  permission to read, the GET request is answered by the 200 header block announcing three
  bytes, and no byte of the file follows. For a regular file of a virtual file system, for
  which \<open>lstat\<close> reports the size 0 and \<open>read\<close> delivers six bytes, reached through the
  parent directory of the document root, the header block says Content-Length 0 and six
  bytes follow.
\<close>

theorem unreadable_file_counterexample:
  "service [''/var/www//f.txt'' \<mapsto> RegularFile 3 ''abc'' False] ''Tue, 03 Nov 2026 10:00:00 GMT''
     (''GET /f.txt HTTP/1.0'' @ CRLF @ CRLF) ''/var/www''
   = Aborted FailedToOpen
       (''HTTP/1.0 200 OK'' @ CRLF
        @ ''Date: Tue, 03 Nov 2026 10:00:00 GMT'' @ CRLF
        @ ''Server: r3u http/0.0.1'' @ CRLF
        @ ''Connection: close'' @ CRLF
        @ ''Content-Length: 3'' @ CRLF
        @ ''Content-Type: text/plain'' @ CRLF
        @ CRLF)
   \<and> service [''/srv/www//../../proc/loadavg'' \<mapsto> RegularFile 0 ''0.00 1'' True]
       ''Tue, 03 Nov 2026 10:00:00 GMT''
       (''GET /../../proc/loadavg HTTP/1.0'' @ CRLF @ CRLF) ''/srv/www''
   = Done
       (''HTTP/1.0 200 OK'' @ CRLF
        @ ''Date: Tue, 03 Nov 2026 10:00:00 GMT'' @ CRLF
        @ ''Server: r3u http/0.0.1'' @ CRLF
        @ ''Connection: close'' @ CRLF
        @ ''Content-Length: 0'' @ CRLF
        @ ''Content-Type: text/plain'' @ CRLF
        @ CRLF @ ''0.00 1'')"
proof -
  let ?ra = "blank_request\<lparr>method_req := ''GET'', path := ''/f.txt'',
            protocol_minor_version := 0, header := [], length_body := 0, body := []\<rparr>"
  let ?rb = "blank_request\<lparr>method_req := ''GET'', path := ''/../../proc/loadavg'',
            protocol_minor_version := 0, header := [], length_body := 0, body := []\<rparr>"
  have qa: "read_request (''GET '' @ ''/f.txt'' @ '' HTTP/1.0'' @ CRLF @ CRLF) = Inr (?ra, [])"
    by (rule read_request_get) (simp_all add: token_def BUFSIZ_def)
  have qb: "read_request (''GET '' @ ''/../../proc/loadavg'' @ '' HTTP/1.0'' @ CRLF @ CRLF)
      = Inr (?rb, [])"
    by (rule read_request_get) (simp_all add: token_def BUFSIZ_def)
  have fa: "[''/var/www//f.txt'' \<mapsto> RegularFile 3 ''abc'' False]
      (build_fspath ''/var/www'' (path ?ra)) = Some (RegularFile 3 ''abc'' False)"
    by (simp add: build_fspath_def)
  have fb: "[''/srv/www//../../proc/loadavg'' \<mapsto> RegularFile 0 ''0.00 1'' True]
      (build_fspath ''/srv/www'' (path ?rb)) = Some (RegularFile 0 ''0.00 1'' True)"
    by (simp add: build_fspath_def)
  have a: "service [''/var/www//f.txt'' \<mapsto> RegularFile 3 ''abc'' False]
      ''Tue, 03 Nov 2026 10:00:00 GMT''
      (''GET '' @ ''/f.txt'' @ '' HTTP/1.0'' @ CRLF @ CRLF) ''/var/www''
    = Aborted FailedToOpen (header_block_200 ''Tue, 03 Nov 2026 10:00:00 GMT'' 0 [] 3)"
    unfolding service_def qa
    by (simp add: respond_to_def
        do_file_response_regular [of "[''/var/www//f.txt'' \<mapsto> RegularFile 3 ''abc'' False]"
          "''/var/www''" ?ra 3 "''abc''" False, OF fa])
  have b: "service [''/srv/www//../../proc/loadavg'' \<mapsto> RegularFile 0 ''0.00 1'' True]
      ''Tue, 03 Nov 2026 10:00:00 GMT''
      (''GET '' @ ''/../../proc/loadavg'' @ '' HTTP/1.0'' @ CRLF @ CRLF) ''/srv/www''
    = Done (header_block_200 ''Tue, 03 Nov 2026 10:00:00 GMT'' 0 [] 0 @ ''0.00 1'')"
    unfolding service_def qb
    by (simp add: respond_to_def
        do_file_response_regular [of
          "[''/srv/www//../../proc/loadavg'' \<mapsto> RegularFile 0 ''0.00 1'' True]"
          "''/srv/www''" ?rb 0 "''0.00 1''" True, OF fb])
  from a b show ?thesis
    by (simp add: header_block_200_def show_int_def show_nat_0 show_nat_3)
qed

theorem regular_file_response_witness:
  "respond_to [''/var/www//f.txt'' \<mapsto> RegularFile 3 ''abc'' True] ''Tue, 03 Nov 2026 10:00:00 GMT''
     (blank_request\<lparr>method_req := ''HEAD'', path := ''/f.txt''\<rparr>) [] ''/var/www''
   = Done (''HTTP/1.0 200 OK'' @ CRLF
        @ ''Date: Tue, 03 Nov 2026 10:00:00 GMT'' @ CRLF
        @ ''Server: r3u http/0.0.1'' @ CRLF
        @ ''Connection: close'' @ CRLF
        @ ''Content-Length: 3'' @ CRLF
        @ ''Content-Type: text/plain'' @ CRLF
        @ CRLF)
   \<and> respond_to [''/var/www//f.txt'' \<mapsto> RegularFile 3 ''abc'' True] ''Tue, 03 Nov 2026 10:00:00 GMT''
     (blank_request\<lparr>method_req := ''GET'', path := ''/f.txt''\<rparr>) [] ''/var/www''
   = Done (''HTTP/1.0 200 OK'' @ CRLF
        @ ''Date: Tue, 03 Nov 2026 10:00:00 GMT'' @ CRLF
        @ ''Server: r3u http/0.0.1'' @ CRLF
        @ ''Connection: close'' @ CRLF
        @ ''Content-Length: 3'' @ CRLF
        @ ''Content-Type: text/plain'' @ CRLF
        @ CRLF @ ''abc'')
   \<and> (3::int) = int (length ''abc'')
   \<and> respond_to [''/var/www//f.txt'' \<mapsto> RegularFile 3 ''abc'' False] ''Tue, 03 Nov 2026 10:00:00 GMT''
     (blank_request\<lparr>method_req := ''GET'', path := ''/f.txt''\<rparr>) [] ''/var/www''
   = Aborted FailedToOpen (''HTTP/1.0 200 OK'' @ CRLF
        @ ''Date: Tue, 03 Nov 2026 10:00:00 GMT'' @ CRLF
        @ ''Server: r3u http/0.0.1'' @ CRLF
        @ ''Connection: close'' @ CRLF
        @ ''Content-Length: 3'' @ CRLF
        @ ''Content-Type: text/plain'' @ CRLF
        @ CRLF)"
  using
    regular_file_response [of "[''/var/www//f.txt'' \<mapsto> RegularFile 3 ''abc'' True]" "''/var/www''"
      "blank_request\<lparr>method_req := ''HEAD'', path := ''/f.txt''\<rparr>" 3 "''abc''" True
      "''Tue, 03 Nov 2026 10:00:00 GMT''" "[]"]
    regular_file_response [of "[''/var/www//f.txt'' \<mapsto> RegularFile 3 ''abc'' True]" "''/var/www''"
      "blank_request\<lparr>method_req := ''GET'', path := ''/f.txt''\<rparr>" 3 "''abc''" True
      "''Tue, 03 Nov 2026 10:00:00 GMT''" "[]"]
    regular_file_response [of "[''/var/www//f.txt'' \<mapsto> RegularFile 3 ''abc'' False]" "''/var/www''"
      "blank_request\<lparr>method_req := ''GET'', path := ''/f.txt''\<rparr>" 3 "''abc''" False
      "''Tue, 03 Nov 2026 10:00:00 GMT''" "[]"]
  by (simp add: build_fspath_def header_block_200_def blank_request_def show_int_def
      show_nat_0 show_nat_3)

subsection \<open>Dispatch on the method\<close>

text \<open>
  Claim C6: a request whose method is POST is answered by the 405 response, whatever its
  path; a request whose method is none of GET, HEAD and POST is answered by the 501 response;
  in both cases the response is the same for every file system and document root, so no file
  is resolved; GET and HEAD go to \<open>do_file_response\<close>, which resolves the file.
\<close>

theorem respond_to_dispatch:
  "(method_req req = ''POST'' \<longrightarrow>
      respond_to fs now req out docroot =
        Done (output_common_header_fields now req out ''405 Method Not Allowed''))
   \<and> (method_req req \<notin> {''GET'', ''HEAD'', ''POST''} \<longrightarrow>
      respond_to fs now req out docroot =
        Done (output_common_header_fields now req out ''501 Not Implemented''))
   \<and> (method_req req \<notin> {''GET'', ''HEAD''} \<longrightarrow>
      respond_to fs now req out docroot = respond_to fs' now req out docroot')
   \<and> (method_req req \<in> {''GET'', ''HEAD''} \<longrightarrow>
      respond_to fs now req out docroot = do_file_response fs now req out docroot)"
  by (simp add: respond_to_def method_not_allowed_def not_implemented_def)

theorem respond_to_dispatch_witness:
  "respond_to Map.empty ''Tue, 03 Nov 2026 10:00:00 GMT''
     (blank_request\<lparr>method_req := ''POST'', path := ''/any/path'',
        protocol_minor_version := 1\<rparr>) [] ''/var/www''
   = Done (''HTTP/1.1 405 Method Not Allowed'' @ CRLF
        @ ''Date: Tue, 03 Nov 2026 10:00:00 GMT'' @ CRLF
        @ ''Server: r3u http/0.0.1'' @ CRLF
        @ ''Connection: close'' @ CRLF)
   \<and> respond_to Map.empty ''Tue, 03 Nov 2026 10:00:00 GMT''
     (blank_request\<lparr>method_req := ''DELETE'', path := ''/f.txt'',
        protocol_minor_version := 1\<rparr>) [] ''/var/www''
   = Done (''HTTP/1.1 501 Not Implemented'' @ CRLF
        @ ''Date: Tue, 03 Nov 2026 10:00:00 GMT'' @ CRLF
        @ ''Server: r3u http/0.0.1'' @ CRLF
        @ ''Connection: close'' @ CRLF)
   \<and> respond_to Map.empty ''Tue, 03 Nov 2026 10:00:00 GMT''
     (blank_request\<lparr>method_req := ''GET'', path := ''/f.txt''\<rparr>) [] ''/var/www''
   = do_file_response Map.empty ''Tue, 03 Nov 2026 10:00:00 GMT''
     (blank_request\<lparr>method_req := ''GET'', path := ''/f.txt''\<rparr>) [] ''/var/www''"
proof -
  have sn: "show_nat (Suc 0) = ''1''" by code_simp
  show ?thesis
    using
      respond_to_dispatch [of "blank_request\<lparr>method_req := ''POST'', path := ''/any/path'',
        protocol_minor_version := 1\<rparr>" Map.empty "''Tue, 03 Nov 2026 10:00:00 GMT''" "[]"
        "''/var/www''"]
      respond_to_dispatch [of "blank_request\<lparr>method_req := ''DELETE'', path := ''/f.txt'',
        protocol_minor_version := 1\<rparr>" Map.empty "''Tue, 03 Nov 2026 10:00:00 GMT''" "[]"
        "''/var/www''"]
      respond_to_dispatch [of "blank_request\<lparr>method_req := ''GET'', path := ''/f.txt''\<rparr>"
        Map.empty "''Tue, 03 Nov 2026 10:00:00 GMT''" "[]" "''/var/www''"]
    by (simp add: output_common_header_fields_def show_int_def sn SERVER_NAME_def
        SERVER_VERSION_def)
qed

subsection \<open>Resolving the file\<close>

lemma get_fileinfo_ok:
  "info_ok (get_fileinfo fs docroot urlpath) =
     (\<exists>sz c r. fs (docroot @ ''/'' @ urlpath) = Some (RegularFile sz c r))"
proof (cases "fs (docroot @ ''/'' @ urlpath)")
  case None
  then show ?thesis by (simp add: get_fileinfo_def build_fspath_def)
next
  case (Some nd)
  then show ?thesis by (cases nd) (simp_all add: get_fileinfo_def build_fspath_def)
qed

lemma get_fileinfo_path: "info_path (get_fileinfo fs docroot urlpath) = docroot @ ''/'' @ urlpath"
  by (simp add: get_fileinfo_def build_fspath_def Let_def split: option.splits)

text \<open>
  Claim C7: the path handed to \<open>lstat\<close> is the document root, a slash and the url path
  as it was received; the file is taken to exist exactly when \<open>lstat\<close> finds a regular
  file there; in every other case (nothing there, a directory, a symbolic link, a device)
  a GET or HEAD request is answered by the 404 response.
\<close>

theorem file_resolution:
  "build_fspath docroot urlpath = docroot @ ''/'' @ urlpath
   \<and> info_path (get_fileinfo fs docroot urlpath) = docroot @ ''/'' @ urlpath
   \<and> info_ok (get_fileinfo fs docroot urlpath) =
       (\<exists>sz c r. fs (docroot @ ''/'' @ urlpath) = Some (RegularFile sz c r))
   \<and> ((method_req req = ''GET'' \<or> method_req req = ''HEAD'')
        \<and> (\<forall>sz c r. fs (docroot @ ''/'' @ path req) \<noteq> Some (RegularFile sz c r)) \<longrightarrow>
      respond_to fs now req out docroot =
        Done (output_common_header_fields now req out ''404 Not Found''))"
proof -
  have "respond_to fs now req out docroot =
        Done (output_common_header_fields now req out ''404 Not Found'')"
    if m: "method_req req = ''GET'' \<or> method_req req = ''HEAD''"
      and n: "\<forall>sz c r. fs (docroot @ ''/'' @ path req) \<noteq> Some (RegularFile sz c r)"
  proof -
    from n have "\<not> info_ok (get_fileinfo fs docroot (path req))"
      by (simp add: get_fileinfo_ok)
    with m show ?thesis
      by (auto simp: respond_to_def do_file_response_def Let_def not_found_def)
  qed
  then show ?thesis
    by (simp add: get_fileinfo_ok get_fileinfo_path build_fspath_def)
qed

theorem file_resolution_witness:
  "build_fspath ''/srv'' ''/../etc/passwd'' = ''/srv//../etc/passwd''
   \<and> info_ok (get_fileinfo
        [''/srv//d'' \<mapsto> Directory, ''/srv//l'' \<mapsto> SymbolicLink,
         ''/srv//../etc/passwd'' \<mapsto> RegularFile 1 ''x'' True] ''/srv'' ''/../etc/passwd'')
   \<and> \<not> info_ok (get_fileinfo
        [''/srv//d'' \<mapsto> Directory, ''/srv//l'' \<mapsto> SymbolicLink,
         ''/srv//../etc/passwd'' \<mapsto> RegularFile 1 ''x'' True] ''/srv'' ''/%2e%2e/etc/passwd'')
   \<and> respond_to
        [''/srv//d'' \<mapsto> Directory, ''/srv//l'' \<mapsto> SymbolicLink,
         ''/srv//../etc/passwd'' \<mapsto> RegularFile 1 ''x'' True]
        ''Tue, 03 Nov 2026 10:00:00 GMT''
        (blank_request\<lparr>method_req := ''GET'', path := ''/l''\<rparr>) [] ''/srv''
      = Done (''HTTP/1.0 404 Not Found'' @ CRLF
        @ ''Date: Tue, 03 Nov 2026 10:00:00 GMT'' @ CRLF
        @ ''Server: r3u http/0.0.1'' @ CRLF
        @ ''Connection: close'' @ CRLF)
   \<and> respond_to
        [''/srv//d'' \<mapsto> Directory, ''/srv//l'' \<mapsto> SymbolicLink,
         ''/srv//../etc/passwd'' \<mapsto> RegularFile 1 ''x'' True]
        ''Tue, 03 Nov 2026 10:00:00 GMT''
        (blank_request\<lparr>method_req := ''HEAD'', path := ''/d''\<rparr>) [] ''/srv''
      = Done (''HTTP/1.0 404 Not Found'' @ CRLF
        @ ''Date: Tue, 03 Nov 2026 10:00:00 GMT'' @ CRLF
        @ ''Server: r3u http/0.0.1'' @ CRLF
        @ ''Connection: close'' @ CRLF)"
proof -
  have sn: "show_nat 0 = ''0''" by code_simp
  show ?thesis
    using
      file_resolution [of "''/srv''" "''/../etc/passwd''"
        "[''/srv//d'' \<mapsto> Directory, ''/srv//l'' \<mapsto> SymbolicLink,
          ''/srv//../etc/passwd'' \<mapsto> RegularFile 1 ''x'' True]"
        "blank_request\<lparr>method_req := ''GET'', path := ''/l''\<rparr>"
        "''Tue, 03 Nov 2026 10:00:00 GMT''" "[]"]
      file_resolution [of "''/srv''" "''/%2e%2e/etc/passwd''"
        "[''/srv//d'' \<mapsto> Directory, ''/srv//l'' \<mapsto> SymbolicLink,
          ''/srv//../etc/passwd'' \<mapsto> RegularFile 1 ''x'' True]"
        "blank_request\<lparr>method_req := ''HEAD'', path := ''/d''\<rparr>"
        "''Tue, 03 Nov 2026 10:00:00 GMT''" "[]"]
    by (auto simp add: output_common_header_fields_def show_int_def sn SERVER_NAME_def
        SERVER_VERSION_def blank_request_def)
qed

subsection \<open>Content-Length and the body\<close>

lemma read_request_after_header:
  assumes rl: "read_request_line blank_request inp = Inr (req1, in1)"
    and hf: "read_header_fields in1 [] = Inr (hdr, in2)"
  shows "read_request inp =
    (case lookup_loop hdr ''Content-Length'' of
       None \<Rightarrow> Inr (req1\<lparr>header := hdr, length_body := 0, body := []\<rparr>, in2)
     | Some v \<Rightarrow>
         if atol v < 0 then Inl NegativeContentLength
         else if atol v = 0 then Inr (req1\<lparr>header := hdr, length_body := 0, body := []\<rparr>, in2)
         else if MAX_REQUEST_BODY_LENGTH < atol v then Inl RequestBodyTooLong
         else if length in2 < nat (atol v) then Inl FailedToReadRequestBody
         else Inr (req1\<lparr>header := hdr, length_body := atol v,
                     body := take (nat (atol v)) in2\<rparr>, drop (nat (atol v)) in2))"
  by (simp add: read_request_def rl hf content_length_def lookup_header_field_value_def Let_def
      split: option.splits)


lemma read_header_field_line:
  assumes "CHR '':'' \<notin> set name" and "LF \<notin> set name" and "NUL \<notin> set name"
    and "LF \<notin> set v" and "NUL \<notin> set v"
    and "length name + length v + 3 \<le> BUFSIZ"
  shows "read_header_field (name @ CHR '':'' # v @ LF # rest) =
     Inr (Some \<lparr>field_name = name,
               field_value = dropWhile (\<lambda>c. c \<in> set [SP, HT]) (v @ [LF])\<rparr>, rest)"
proof -
  define l where "l = name @ CHR '':'' # v"
  have inp: "name @ CHR '':'' # v @ LF # rest = l @ LF # rest" by (simp add: l_def)
  have "LF \<notin> set l" using assms by (simp add: l_def)
  moreover have "length l + 2 \<le> BUFSIZ" using assms by (simp add: l_def)
  ultimately have fg: "fgets BUFSIZ (l @ LF # rest) = Some (l @ [LF], rest)"
    by (rule fgets_line)
  have "NUL \<notin> set (l @ [LF])" using assms by (simp add: l_def)
  then have cs: "c_str (l @ [LF]) = l @ [LF]" by (rule c_str_id)
  have ne: "l @ [LF] \<noteq> [LF]" "l @ [LF] \<noteq> CRLF"
    using assms by (auto simp: l_def append_eq_Cons_conv)
  have sc: "strchr (l @ [LF]) (CHR '':'') = Some (length name)"
    using assms strchr_append [of "CHR '':''" name "v @ [LF]"] by (simp add: l_def)
  have tk: "take (length name) (l @ [LF]) = name"
    and dr: "drop (Suc (length name)) (l @ [LF]) = v @ [LF]"
    by (simp_all add: l_def)
  show ?thesis
    unfolding inp read_header_field_def fg
    by (simp only: option.case prod.case Let_def cs ne sc tk dr strspn_def if_False simp_thms
        dropWhile_eq_drop [symmetric])
qed

lemma read_header_fields_step:
  "read_header_field inp = Inr (Some h, rest) \<Longrightarrow>
     read_header_fields inp hdr = read_header_fields rest (h # hdr)"
  by (simp add: read_header_fields.simps [of inp])


lemma example_request_line:
  "read_request_line blank_request (request_line ''post'' ''/x'' 1 @ rest) =
     Inr (blank_request\<lparr>method_req := ''POST'', path := ''/x'', protocol_minor_version := 1\<rparr>,
          rest)"
proof -
  have sn: "show_nat (Suc 0) = ''1''" by code_simp
  have up: "uppcase ''post'' = ''POST''" by code_simp
  have "read_request_line blank_request (request_line ''post'' ''/x'' 1 @ rest) =
     Inr (blank_request\<lparr>method_req := uppcase ''post'', path := ''/x'',
            protocol_minor_version := int 1\<rparr>, rest)"
    by (rule read_request_line_valid) (simp_all add: token_def request_line_def sn BUFSIZ_def)
  then show ?thesis by (simp add: up)
qed

lemma example_header_section:
  assumes "LF \<notin> set v" and "NUL \<notin> set v" and "length v + 20 \<le> BUFSIZ"
  shows "read_header_fields (''content-length'' @ CHR '':'' # v @ LF # CR # LF # rest) [] =
     Inr ([\<lparr>field_name = ''content-length'',
            field_value = dropWhile (\<lambda>c. c \<in> set [SP, HT]) (v @ [LF])\<rparr>], rest)"
proof -
  have "read_header_field (''content-length'' @ CHR '':'' # v @ LF # CR # LF # rest) =
     Inr (Some \<lparr>field_name = ''content-length'',
               field_value = dropWhile (\<lambda>c. c \<in> set [SP, HT]) (v @ [LF])\<rparr>, CR # LF # rest)"
    using assms by (intro read_header_field_line) simp_all
  then show ?thesis
    by (simp only: read_header_fields_step read_header_fields_end)
qed

lemma example_lookup:
  "lookup_header_field_value
     (req\<lparr>header := [\<lparr>field_name = ''content-length'', field_value = v\<rparr>]\<rparr>) ''Content-Length''
   = Some v"
proof -
  have "map tolower ''content-length'' = map tolower ''Content-Length''" by code_simp
  then show ?thesis by (simp add: lookup_header_field_value_def strcasecmp_def)
qed


lemma digits_value_none: "takeWhile isdigit s = [] \<Longrightarrow> digits_value s = 0"
  by (simp add: digits_value_def)

lemma non_numeric_strtol:
  assumes "non_numeric v"
  shows "strtol v = 0"
proof (cases "dropWhile isspace v")
  case Nil
  show ?thesis unfolding strtol_def Nil by simp
next
  case (Cons c r)
  show ?thesis
  proof (cases "c = CHR ''-'' \<or> c = CHR ''+''")
    case True
    with assms have "takeWhile isdigit r = []"
      unfolding non_numeric_def leading_digits_def Cons by auto
    then have "digits_value r = 0" by (rule digits_value_none)
    with True show ?thesis
      unfolding strtol_def Cons by (auto simp: LONG_MIN_def LONG_MAX_def)
  next
    case False
    with assms have "takeWhile isdigit (c # r) = []"
      unfolding non_numeric_def leading_digits_def Cons by simp
    then have "digits_value (c # r) = 0" by (rule digits_value_none)
    with False show ?thesis
      unfolding strtol_def Cons by (simp add: LONG_MAX_def)
  qed
qed


text \<open>
  Claim C4: when the request line and the header section have been read and the
  Content-Length field that the lookup finds has a value that \<open>atol\<close> reads as a negative
  number, \<open>read_request\<close> leaves through \<open>log_exit\<close> and \<open>service\<close> has written
  nothing to \<open>out\<close>; when \<open>atol\<close> reads more than 4194304, \<open>read_request\<close> leaves
  with the condition of a request body that is too long. This holds for every stream
  \<open>in2\<close> that follows the header section, the empty one too: no byte of a body is read.
\<close>

theorem content_length_rejected:
  "read_request_line blank_request inp = Inr (req1, in1)
   \<and> read_header_fields in1 [] = Inr (hdr, in2)
   \<and> lookup_header_field_value (req1\<lparr>header := hdr\<rparr>) ''Content-Length'' = Some v \<longrightarrow>
     (atol v < 0 \<longrightarrow>
        read_request inp = Inl NegativeContentLength
        \<and> service fs now inp docroot = Aborted NegativeContentLength [])
     \<and> (4194304 < atol v \<longrightarrow>
        read_request inp = Inl RequestBodyTooLong
        \<and> service fs now inp docroot = Aborted RequestBodyTooLong [])"
proof (intro impI, elim conjE)
  assume rl: "read_request_line blank_request inp = Inr (req1, in1)"
    and hf: "read_header_fields in1 [] = Inr (hdr, in2)"
    and lk: "lookup_header_field_value (req1\<lparr>header := hdr\<rparr>) ''Content-Length'' = Some v"
  from lk have lk': "lookup_loop hdr ''Content-Length'' = Some v"
    by (simp add: lookup_header_field_value_def)
  note rr = read_request_after_header [OF rl hf, unfolded lk' option.case]
  show "(atol v < 0 \<longrightarrow>
        read_request inp = Inl NegativeContentLength
        \<and> service fs now inp docroot = Aborted NegativeContentLength [])
     \<and> (4194304 < atol v \<longrightarrow>
        read_request inp = Inl RequestBodyTooLong
        \<and> service fs now inp docroot = Aborted RequestBodyTooLong [])"
    by (simp add: rr service_def MAX_REQUEST_BODY_LENGTH_def)
qed


theorem content_length_rejected_witness:
  "service Map.empty ''Tue, 03 Nov 2026 10:00:00 GMT''
     (''post /x HTTP/1.1'' @ CRLF @ ''content-length: -5'' @ CRLF @ CRLF @ ''hello'') ''/srv''
     = Aborted NegativeContentLength []
   \<and> service Map.empty ''Tue, 03 Nov 2026 10:00:00 GMT''
     (''post /x HTTP/1.1'' @ CRLF @ ''content-length: 4194305'' @ CRLF @ CRLF) ''/srv''
     = Aborted RequestBodyTooLong []"
proof -
  have sn: "show_nat (Suc 0) = ''1''" by code_simp
  have a1: "atol (''-5'' @ CRLF) = - 5"
    by (simp add: atol_def strtol_def isspace_def digits_value_def isdigit_def LONG_MIN_def)
  have a2: "atol (''4194305'' @ CRLF) = 4194305"
    by (simp add: atol_def strtol_def isspace_def digits_value_def isdigit_def LONG_MAX_def)
  have h1: "read_header_fields (''content-length'' @ CHR '':'' # '' -5'' @ [CR] @ LF # CR # LF # ''hello'') []
      = Inr ([\<lparr>field_name = ''content-length'', field_value = ''-5'' @ CRLF\<rparr>], ''hello'')"
    using example_header_section [of "'' -5'' @ [CR]" "''hello''"] by (simp add: BUFSIZ_def)
  have h2: "read_header_fields (''content-length'' @ CHR '':'' # '' 4194305'' @ [CR] @ LF # CR # LF # []) []
      = Inr ([\<lparr>field_name = ''content-length'', field_value = ''4194305'' @ CRLF\<rparr>], [])"
    using example_header_section [of "'' 4194305'' @ [CR]" "[]"] by (simp add: BUFSIZ_def)
  let ?rq = "blank_request\<lparr>method_req := ''POST'', path := ''/x'', protocol_minor_version := 1\<rparr>"
  let ?ia = "''content-length'' @ CHR '':'' # '' -5'' @ [CR] @ LF # CR # LF # ''hello''"
  let ?ib = "''content-length'' @ CHR '':'' # '' 4194305'' @ [CR] @ LF # CR # LF # []"
  have "service Map.empty ''Tue, 03 Nov 2026 10:00:00 GMT'' (request_line ''post'' ''/x'' 1 @ ?ia)
          ''/srv'' = Aborted NegativeContentLength []"
    using content_length_rejected [where inp = "request_line ''post'' ''/x'' 1 @ ?ia"
        and ?req1.0 = ?rq and ?in1.0 = ?ia
        and hdr = "[\<lparr>field_name = ''content-length'', field_value = ''-5'' @ CRLF\<rparr>]"
        and ?in2.0 = "''hello''" and v = "''-5'' @ CRLF" and fs = Map.empty
        and now = "''Tue, 03 Nov 2026 10:00:00 GMT''" and docroot = "''/srv''"]
      example_request_line [of ?ia] h1 example_lookup [where req = ?rq and v = "''-5'' @ CRLF"] a1
    by simp
  moreover have "service Map.empty ''Tue, 03 Nov 2026 10:00:00 GMT''
          (request_line ''post'' ''/x'' 1 @ ?ib) ''/srv'' = Aborted RequestBodyTooLong []"
    using content_length_rejected [where inp = "request_line ''post'' ''/x'' 1 @ ?ib"
        and ?req1.0 = ?rq and ?in1.0 = ?ib
        and hdr = "[\<lparr>field_name = ''content-length'', field_value = ''4194305'' @ CRLF\<rparr>]"
        and ?in2.0 = "[]" and v = "''4194305'' @ CRLF" and fs = Map.empty
        and now = "''Tue, 03 Nov 2026 10:00:00 GMT''" and docroot = "''/srv''"]
      example_request_line [of ?ib] h2 example_lookup [where req = ?rq and v = "''4194305'' @ CRLF"] a2
    by simp
  ultimately show ?thesis by (simp add: request_line_def sn)
qed

text \<open>
  Claim C5: for a request that \<open>read_request\<close> returns: without a Content-Length field the
  length is 0 and the body is empty; with one, the length is the number that \<open>atol\<close> reads
  in its value, which is not negative; the body has as many bytes as the length says; and the
  stream after the header section is the body followed by what is left unread, so that the
  body is what was taken off the stream, no more and no less.
\<close>

theorem body_matches_content_length:
  "read_request inp = Inr (req, rest) \<longrightarrow>
     (lookup_header_field_value req ''Content-Length'' = None \<longrightarrow>
        length_body req = 0 \<and> body req = [])
     \<and> (\<forall>v. lookup_header_field_value req ''Content-Length'' = Some v \<longrightarrow>
        0 \<le> atol v \<and> length_body req = atol v)
     \<and> int (length (body req)) = length_body req
     \<and> (\<exists>req1 in1 in2. read_request_line blank_request inp = Inr (req1, in1)
           \<and> read_header_fields in1 [] = Inr (header req, in2)
           \<and> in2 = body req @ rest)"
proof
  assume rr: "read_request inp = Inr (req, rest)"
  then obtain req1 in1 where rl: "read_request_line blank_request inp = Inr (req1, in1)"
    by (auto simp: read_request_def split: sum.splits)
  with rr obtain hdr in2 where hf: "read_header_fields in1 [] = Inr (hdr, in2)"
    by (auto simp: read_request_def split: sum.splits)
  note c = read_request_after_header [OF rl hf]
  show "(lookup_header_field_value req ''Content-Length'' = None \<longrightarrow>
        length_body req = 0 \<and> body req = [])
     \<and> (\<forall>v. lookup_header_field_value req ''Content-Length'' = Some v \<longrightarrow>
        0 \<le> atol v \<and> length_body req = atol v)
     \<and> int (length (body req)) = length_body req
     \<and> (\<exists>req1 in1 in2. read_request_line blank_request inp = Inr (req1, in1)
           \<and> read_header_fields in1 [] = Inr (header req, in2)
           \<and> in2 = body req @ rest)"
  proof (cases "lookup_loop hdr ''Content-Length''")
    case None
    with c rr have "req = req1\<lparr>header := hdr, length_body := 0, body := []\<rparr>" "rest = in2"
      by simp_all
    with None rl hf show ?thesis
      by (simp add: lookup_header_field_value_def)
  next
    case (Some v)
    with c rr have
      "atol v = 0 \<and> req = req1\<lparr>header := hdr, length_body := 0, body := []\<rparr> \<and> rest = in2
       \<or> 0 < atol v \<and> nat (atol v) \<le> length in2
          \<and> req = req1\<lparr>header := hdr, length_body := atol v, body := take (nat (atol v)) in2\<rparr>
          \<and> rest = drop (nat (atol v)) in2"
      by (auto split: if_splits)
    with Some rl hf show ?thesis
      by (auto simp: lookup_header_field_value_def)
  qed
qed


theorem body_matches_content_length_witness:
  "read_request (''post /x HTTP/1.1'' @ CRLF @ ''content-length: 3'' @ CRLF @ CRLF @ ''abcdef'')
     = Inr (blank_request\<lparr>method_req := ''POST'', path := ''/x'', protocol_minor_version := 1,
              header := [\<lparr>field_name = ''content-length'', field_value = ''3'' @ CRLF\<rparr>],
              length_body := 3, body := ''abc''\<rparr>, ''def'')
   \<and> int (length ''abc'') = 3
   \<and> read_request (''post /x HTTP/1.1'' @ CRLF @ CRLF @ ''abcdef'')
     = Inr (blank_request\<lparr>method_req := ''POST'', path := ''/x'', protocol_minor_version := 1,
              header := [], length_body := 0, body := []\<rparr>, ''abcdef'')"
proof -
  have sn: "show_nat (Suc 0) = ''1''" by code_simp
  let ?rq = "blank_request\<lparr>method_req := ''POST'', path := ''/x'', protocol_minor_version := 1\<rparr>"
  let ?ia = "''content-length'' @ CHR '':'' # '' 3'' @ [CR] @ LF # CR # LF # ''abcdef''"
  let ?ra = "?rq\<lparr>header := [\<lparr>field_name = ''content-length'', field_value = ''3'' @ CRLF\<rparr>],
              length_body := 3, body := ''abc''\<rparr>"
  let ?rb = "?rq\<lparr>header := [], length_body := 0, body := []\<rparr>"
  have a: "atol (''3'' @ CRLF) = 3"
    by (simp add: atol_def strtol_def isspace_def digits_value_def isdigit_def LONG_MAX_def)
  have h: "read_header_fields ?ia []
      = Inr ([\<lparr>field_name = ''content-length'', field_value = ''3'' @ CRLF\<rparr>], ''abcdef'')"
    using example_header_section [of "'' 3'' @ [CR]" "''abcdef''"] by (simp add: BUFSIZ_def)
  have lk: "lookup_loop [\<lparr>field_name = ''content-length'', field_value = ''3'' @ CRLF\<rparr>]
      ''Content-Length'' = Some (''3'' @ CRLF)"
    using example_lookup [where req = ?rq and v = "''3'' @ CRLF"]
    by (simp add: lookup_header_field_value_def)
  have ra: "read_request (request_line ''post'' ''/x'' 1 @ ?ia) = Inr (?ra, ''def'')"
    unfolding read_request_after_header [OF example_request_line h] lk
    using a by (simp add: MAX_REQUEST_BODY_LENGTH_def)
  have rb: "read_request (request_line ''post'' ''/x'' 1 @ CR # LF # ''abcdef'') = Inr (?rb, ''abcdef'')"
    unfolding read_request_after_header [OF example_request_line read_header_fields_end]
    by simp
  have "int (length (body ?ra)) = length_body ?ra"
    using body_matches_content_length [where inp = "request_line ''post'' ''/x'' 1 @ ?ia"
        and req = ?ra and rest = "''def''"] ra
    by blast
  moreover have "length_body ?rb = 0 \<and> body ?rb = []"
    using body_matches_content_length [where
        inp = "request_line ''post'' ''/x'' 1 @ CR # LF # ''abcdef''"
        and req = ?rb and rest = "''abcdef''"] rb
    by (simp add: lookup_header_field_value_def)
  ultimately show ?thesis
    using ra rb by (simp add: request_line_def sn)
qed





subsection \<open>The protocol token\<close>

lemma tolower_HTTP: "map tolower ''HTTP/1.'' = ''http/1.''"
  by code_simp

lemma strncasecmp_HTTP:
  "strncasecmp tok ''HTTP/1.'' (length ''HTTP/1.'') = (map tolower (take 7 tok) = ''http/1.'')"
proof -
  have len: "length ''HTTP/1.'' = 7" by simp
  have tk: "take 7 ''HTTP/1.'' = ''HTTP/1.''" by simp
  show ?thesis unfolding strncasecmp_def len tk tolower_HTTP by (rule refl)
qed

lemma read_request_line_protocol:
  assumes fg: "fgets BUFSIZ inp = Some (raw, rest)"
    and buf: "c_str raw = m @ SP # p @ SP # tok"
    and m: "SP \<notin> set m" and p: "SP \<notin> set p"
  shows "read_request_line req inp =
     (if map tolower (take 7 tok) = ''http/1.''
      then Inr (req\<lparr>method_req := uppcase m, path := p,
                   protocol_minor_version := atoi (drop 7 tok)\<rparr>, rest)
      else Inl ParseErrorRequestLine3)"
proof -
  define p1 where "p1 = p @ SP # tok"
  have buf': "c_str raw = m @ SP # p1" by (simp add: buf p1_def)
  have s1: "strchr (m @ SP # p1) SP = Some (length m)"
    using m by (rule strchr_append)
  have d1: "drop (Suc (length m)) (m @ SP # p1) = p1" and t1: "take (length m) (m @ SP # p1) = m"
    by simp_all
  have s2: "strchr p1 SP = Some (length p)"
    unfolding p1_def using p by (rule strchr_append)
  have d2: "drop (Suc (length p)) p1 = tok" and t2: "take (length p) p1 = p"
    by (simp_all add: p1_def)
  have len: "length ''HTTP/1.'' = 7" by simp
  have pre: "strncasecmp tok ''HTTP/1.'' 7 = (map tolower (take 7 tok) = ''http/1.'')"
    using strncasecmp_HTTP [of tok] unfolding len .
  show ?thesis
    unfolding read_request_line_def fg
    by (simp only: option.case prod.case Let_def buf' s1 d1 t1 s2 d2 t2 len pre)
qed

lemma non_numeric_atoi: "non_numeric s \<Longrightarrow> atoi s = 0"
  by (simp add: atoi_def non_numeric_strtol int_of_long_def)

text \<open>
  Claim C8, amended: for a line with its two spaces, the parse of the request line is fatal
  at the protocol token exactly when the first seven bytes of the token are not
  \<open>HTTP/1.\<close> in some mix of upper and lower case (the comparison is \<open>strncasecmp\<close>);
  otherwise the request is returned, with the minor version that \<open>atoi\<close> reads in the
  bytes after the prefix: white space, one sign and the digits that follow, so that the
  version may be negative, and 0 when no digit is there.
\<close>

theorem protocol_token_validation:
  "fgets BUFSIZ inp = Some (raw, rest) \<and> c_str raw = m @ SP # p @ SP # tok
   \<and> SP \<notin> set m \<and> SP \<notin> set p \<longrightarrow>
     (read_request_line req inp = Inl ParseErrorRequestLine3)
        = (map tolower (take 7 tok) \<noteq> ''http/1.'')
     \<and> (map tolower (take 7 tok) = ''http/1.'' \<longrightarrow>
          read_request_line req inp =
            Inr (req\<lparr>method_req := uppcase m, path := p,
                     protocol_minor_version := atoi (drop 7 tok)\<rparr>, rest))
     \<and> (non_numeric (drop 7 tok) \<longrightarrow> atoi (drop 7 tok) = 0)"
proof (intro impI, elim conjE)
  assume "fgets BUFSIZ inp = Some (raw, rest)" and "c_str raw = m @ SP # p @ SP # tok"
    and "SP \<notin> set m" and "SP \<notin> set p"
  then have "read_request_line req inp =
     (if map tolower (take 7 tok) = ''http/1.''
      then Inr (req\<lparr>method_req := uppcase m, path := p,
                   protocol_minor_version := atoi (drop 7 tok)\<rparr>, rest)
      else Inl ParseErrorRequestLine3)"
    by (rule read_request_line_protocol)
  then show "(read_request_line req inp = Inl ParseErrorRequestLine3)
        = (map tolower (take 7 tok) \<noteq> ''http/1.'')
     \<and> (map tolower (take 7 tok) = ''http/1.'' \<longrightarrow>
          read_request_line req inp =
            Inr (req\<lparr>method_req := uppcase m, path := p,
                     protocol_minor_version := atoi (drop 7 tok)\<rparr>, rest))
     \<and> (non_numeric (drop 7 tok) \<longrightarrow> atoi (drop 7 tok) = 0)"
    by (simp add: non_numeric_atoi)
qed

lemma fgets_short_line:
  assumes "LF \<notin> set l" and "length l + 2 \<le> BUFSIZ" and "NUL \<notin> set l"
  shows "fgets BUFSIZ (l @ [LF]) = Some (l @ [LF], [])" and "c_str (l @ [LF]) = l @ [LF]"
  using assms fgets_line [of l BUFSIZ "[]"] by (simp_all add: c_str_id)

text \<open>
  Claim C8, as the specification states it: the token \<open>http/1.1\<close> does not begin with
  the literal \<open>HTTP/1.\<close> and the parse succeeds; the token \<open>HTTP/1.-7\<close> gives the
  negative minor version \<open>-7\<close>.
\<close>

theorem protocol_token_counterexample:
  "read_request_line blank_request (''GET / http/1.1'' @ CRLF)
     = Inr (blank_request\<lparr>method_req := ''GET'', path := ''/'', protocol_minor_version := 1\<rparr>, [])
   \<and> take 7 (''http/1.1'' @ CRLF) \<noteq> ''HTTP/1.''
   \<and> read_request_line blank_request (''GET / HTTP/1.-7'' @ CRLF)
     = Inr (blank_request\<lparr>method_req := ''GET'', path := ''/'',
              protocol_minor_version := - 7\<rparr>, [])"
proof -
  have up: "uppcase ''GET'' = ''GET''" by code_simp
  have f1: "fgets BUFSIZ ((''GET / http/1.1'' @ [CR]) @ [LF]) = Some ((''GET / http/1.1'' @ [CR]) @ [LF], [])"
    and c1: "c_str ((''GET / http/1.1'' @ [CR]) @ [LF]) = (''GET / http/1.1'' @ [CR]) @ [LF]"
    by (rule fgets_short_line; simp add: BUFSIZ_def)+
  have f2: "fgets BUFSIZ ((''GET / HTTP/1.-7'' @ [CR]) @ [LF]) = Some ((''GET / HTTP/1.-7'' @ [CR]) @ [LF], [])"
    and c2: "c_str ((''GET / HTTP/1.-7'' @ [CR]) @ [LF]) = (''GET / HTTP/1.-7'' @ [CR]) @ [LF]"
    by (rule fgets_short_line; simp add: BUFSIZ_def)+
  have b1: "c_str ((''GET / http/1.1'' @ [CR]) @ [LF]) = ''GET'' @ SP # ''/'' @ SP # (''http/1.1'' @ CRLF)"
    unfolding c1 by simp
  have b2: "c_str ((''GET / HTTP/1.-7'' @ [CR]) @ [LF]) = ''GET'' @ SP # ''/'' @ SP # (''HTTP/1.-7'' @ CRLF)"
    unfolding c2 by simp
  have l1: "map tolower (take 7 (''http/1.1'' @ CRLF)) = ''http/1.''" by code_simp
  have l2: "map tolower (take 7 (''HTTP/1.-7'' @ CRLF)) = ''http/1.''" by code_simp
  have a1: "atoi (drop 7 (''http/1.1'' @ CRLF)) = 1"
    by (simp add: atoi_def strtol_def isspace_def digits_value_def isdigit_def LONG_MAX_def
        int_of_long_def)
  have a2: "atoi (drop 7 (''HTTP/1.-7'' @ CRLF)) = - 7"
    by (simp add: atoi_def strtol_def isspace_def digits_value_def isdigit_def LONG_MIN_def
        int_of_long_def)
  have sp: "SP \<notin> set ''GET''" "SP \<notin> set ''/''" by simp_all
  have r1: "read_request_line blank_request ((''GET / http/1.1'' @ [CR]) @ [LF])
     = Inr (blank_request\<lparr>method_req := ''GET'', path := ''/'', protocol_minor_version := 1\<rparr>, [])"
    unfolding read_request_line_protocol [OF f1 b1 sp, of blank_request] l1 a1 up by simp
  have r2: "read_request_line blank_request ((''GET / HTTP/1.-7'' @ [CR]) @ [LF])
     = Inr (blank_request\<lparr>method_req := ''GET'', path := ''/'', protocol_minor_version := - 7\<rparr>, [])"
    unfolding read_request_line_protocol [OF f2 b2 sp, of blank_request] l2 a2 up by simp
  from r1 r2 show ?thesis by simp
qed

theorem protocol_token_validation_witness:
  "read_request_line blank_request (''GET / HTTP/1.1'' @ CRLF)
     = Inr (blank_request\<lparr>method_req := ''GET'', path := ''/'', protocol_minor_version := 1\<rparr>, [])
   \<and> read_request_line blank_request (''GET / HTTP/1.x'' @ CRLF)
     = Inr (blank_request\<lparr>method_req := ''GET'', path := ''/'', protocol_minor_version := 0\<rparr>, [])
   \<and> read_request_line blank_request (''GET / HTTP/2.0'' @ CRLF) = Inl ParseErrorRequestLine3"
proof -
  have up: "uppcase ''GET'' = ''GET''" by code_simp
  have f1: "fgets BUFSIZ ((''GET / HTTP/1.1'' @ [CR]) @ [LF]) = Some ((''GET / HTTP/1.1'' @ [CR]) @ [LF], [])"
    and c1: "c_str ((''GET / HTTP/1.1'' @ [CR]) @ [LF]) = (''GET / HTTP/1.1'' @ [CR]) @ [LF]"
    by (rule fgets_short_line; simp add: BUFSIZ_def)+
  have f2: "fgets BUFSIZ ((''GET / HTTP/1.x'' @ [CR]) @ [LF]) = Some ((''GET / HTTP/1.x'' @ [CR]) @ [LF], [])"
    and c2: "c_str ((''GET / HTTP/1.x'' @ [CR]) @ [LF]) = (''GET / HTTP/1.x'' @ [CR]) @ [LF]"
    by (rule fgets_short_line; simp add: BUFSIZ_def)+
  have f3: "fgets BUFSIZ ((''GET / HTTP/2.0'' @ [CR]) @ [LF]) = Some ((''GET / HTTP/2.0'' @ [CR]) @ [LF], [])"
    and c3: "c_str ((''GET / HTTP/2.0'' @ [CR]) @ [LF]) = (''GET / HTTP/2.0'' @ [CR]) @ [LF]"
    by (rule fgets_short_line; simp add: BUFSIZ_def)+
  have b1: "c_str ((''GET / HTTP/1.1'' @ [CR]) @ [LF]) = ''GET'' @ SP # ''/'' @ SP # (''HTTP/1.1'' @ CRLF)"
    unfolding c1 by simp
  have b2: "c_str ((''GET / HTTP/1.x'' @ [CR]) @ [LF]) = ''GET'' @ SP # ''/'' @ SP # (''HTTP/1.x'' @ CRLF)"
    unfolding c2 by simp
  have b3: "c_str ((''GET / HTTP/2.0'' @ [CR]) @ [LF]) = ''GET'' @ SP # ''/'' @ SP # (''HTTP/2.0'' @ CRLF)"
    unfolding c3 by simp
  have l1: "map tolower (take 7 (''HTTP/1.1'' @ CRLF)) = ''http/1.''" by code_simp
  have l2: "map tolower (take 7 (''HTTP/1.x'' @ CRLF)) = ''http/1.''" by code_simp
  have l3: "map tolower (take 7 (''HTTP/2.0'' @ CRLF)) \<noteq> ''http/1.''" by code_simp
  have a1: "atoi (drop 7 (''HTTP/1.1'' @ CRLF)) = 1"
    by (simp add: atoi_def strtol_def isspace_def digits_value_def isdigit_def LONG_MAX_def
        int_of_long_def)
  have n2: "non_numeric (drop 7 (''HTTP/1.x'' @ CRLF))"
    by (simp add: non_numeric_def leading_digits_def isspace_def isdigit_def)
  have sp: "SP \<notin> set ''GET''" "SP \<notin> set ''/''" by simp_all
  note t1 = protocol_token_validation [where inp = "(''GET / HTTP/1.1'' @ [CR]) @ [LF]"
      and raw = "(''GET / HTTP/1.1'' @ [CR]) @ [LF]" and rest = "[]" and m = "''GET''"
      and p = "''/''" and tok = "''HTTP/1.1'' @ CRLF" and req = blank_request]
  note t2 = protocol_token_validation [where inp = "(''GET / HTTP/1.x'' @ [CR]) @ [LF]"
      and raw = "(''GET / HTTP/1.x'' @ [CR]) @ [LF]" and rest = "[]" and m = "''GET''"
      and p = "''/''" and tok = "''HTTP/1.x'' @ CRLF" and req = blank_request]
  note t3 = protocol_token_validation [where inp = "(''GET / HTTP/2.0'' @ [CR]) @ [LF]"
      and raw = "(''GET / HTTP/2.0'' @ [CR]) @ [LF]" and rest = "[]" and m = "''GET''"
      and p = "''/''" and tok = "''HTTP/2.0'' @ CRLF" and req = blank_request]
  have r1: "read_request_line blank_request ((''GET / HTTP/1.1'' @ [CR]) @ [LF])
     = Inr (blank_request\<lparr>method_req := uppcase ''GET'', path := ''/'',
              protocol_minor_version := atoi (drop 7 (''HTTP/1.1'' @ CRLF))\<rparr>, [])"
    using t1 f1 b1 sp l1 by blast
  have r2: "read_request_line blank_request ((''GET / HTTP/1.x'' @ [CR]) @ [LF])
     = Inr (blank_request\<lparr>method_req := uppcase ''GET'', path := ''/'',
              protocol_minor_version := atoi (drop 7 (''HTTP/1.x'' @ CRLF))\<rparr>, [])"
    and z2: "atoi (drop 7 (''HTTP/1.x'' @ CRLF)) = 0"
    using t2 f2 b2 sp l2 n2 by blast+
  have r3: "read_request_line blank_request ((''GET / HTTP/2.0'' @ [CR]) @ [LF])
      = Inl ParseErrorRequestLine3"
    using t3 f3 b3 sp l3 by blast
  from r1 r2 r3 show ?thesis
    unfolding a1 z2 up by simp
qed

subsection \<open>The order of the header fields\<close>

lemma read_header_fields_wire:
  "read_header_fields inp hdr =
     (case wire_fields inp of
        Inl e \<Rightarrow> Inl e
      | Inr (ws, rest) \<Rightarrow> Inr (rev ws @ hdr, rest))"
proof (induction inp hdr rule: read_header_fields.induct)
  case (1 inp hdr)
  show ?case
  proof (cases "read_header_field inp")
    case (Inl e)
    then show ?thesis
      by (simp add: read_header_fields.simps [of inp] wire_fields.simps [of inp])
  next
    case (Inr x)
    obtain ho rest where x: "x = (ho, rest)" by (cases x)
    show ?thesis
    proof (cases ho)
      case None
      with Inr x show ?thesis
        by (simp add: read_header_fields.simps [of inp] wire_fields.simps [of inp])
    next
      case (Some h)
      with Inr x have "read_header_fields rest (h # hdr) =
          (case wire_fields rest of Inl e \<Rightarrow> Inl e | Inr (ws, r) \<Rightarrow> Inr (rev ws @ h # hdr, r))"
        using "1.IH" [of x ho rest h] by simp
      with Inr x Some show ?thesis
        by (simp add: read_header_fields.simps [of inp] wire_fields.simps [of inp]
            split: sum.splits)
    qed
  qed
qed

lemma lookup_loop_append:
  "lookup_loop (xs @ ys) name =
     (case lookup_loop xs name of Some v \<Rightarrow> Some v | None \<Rightarrow> lookup_loop ys name)"
  by (induction xs) auto

lemma lookup_loop_rev: "lookup_loop (rev ws) name = last_appearance ws name"
proof (induction ws)
  case Nil
  show ?case by (simp add: last_appearance_def)
next
  case (Cons w ws)
  show ?case
  proof (cases "filter (\<lambda>h. strcasecmp (field_name h) name) ws")
    case Nil
    with Cons show ?thesis
      by (simp add: lookup_loop_append last_appearance_def)
  next
    case (Cons f fs)
    with Cons.IH show ?thesis
      by (simp add: lookup_loop_append last_appearance_def)
  qed
qed

text \<open>
  Claim C9: in a request that \<open>read_request\<close> returns, the header list is the reverse of
  the fields in their order on the wire, with every field kept, and the lookup of a name
  gives the value of the last field on the wire that has this name, letter case apart (and
  nothing when there is none).
\<close>

theorem header_order:
  "read_request inp = Inr (req, rest) \<longrightarrow>
     (\<exists>req1 in1 ws in2.
        read_request_line blank_request inp = Inr (req1, in1)
        \<and> wire_fields in1 = Inr (ws, in2)
        \<and> header req = rev ws
        \<and> (\<forall>name. lookup_header_field_value req name = last_appearance ws name))"
proof
  assume rr: "read_request inp = Inr (req, rest)"
  then obtain req1 in1 where rl: "read_request_line blank_request inp = Inr (req1, in1)"
    by (auto simp: read_request_def split: sum.splits)
  with rr obtain hdr in2 where hf: "read_header_fields in1 [] = Inr (hdr, in2)"
    by (auto simp: read_request_def split: sum.splits)
  from hf obtain ws where w: "wire_fields in1 = Inr (ws, in2)" and h: "hdr = rev ws"
    by (auto simp: read_header_fields_wire [of in1 "[]"] split: sum.splits)
  from rr have "header req = hdr"
    by (auto simp: read_request_after_header [OF rl hf] split: option.splits if_splits)
  with h have hr: "header req = rev ws" by simp
  then have "\<forall>name. lookup_header_field_value req name = last_appearance ws name"
    by (simp add: lookup_header_field_value_def lookup_loop_rev)
  with rl w hr show "\<exists>req1 in1 ws in2.
        read_request_line blank_request inp = Inr (req1, in1)
        \<and> wire_fields in1 = Inr (ws, in2)
        \<and> header req = rev ws
        \<and> (\<forall>name. lookup_header_field_value req name = last_appearance ws name)"
    by blast
qed

lemma wire_fields_step:
  "read_header_field inp = Inr (Some h, rest) \<Longrightarrow>
     wire_fields inp =
       (case wire_fields rest of Inl e \<Rightarrow> Inl e | Inr (hs, r) \<Rightarrow> Inr (h # hs, r))"
  by (simp add: wire_fields.simps [of inp])

lemma wire_fields_end: "wire_fields (CR # LF # rest) = Inr ([], rest)"
  by (simp add: wire_fields.simps [of "CR # LF # rest"] read_header_field_end)

theorem header_order_witness:
  "read_request (''get / HTTP/1.1'' @ CRLF @ ''Host: a'' @ CRLF @ ''X-K: 1'' @ CRLF
                  @ ''host: b'' @ CRLF @ CRLF)
     = Inr (blank_request\<lparr>method_req := ''GET'', path := ''/'', protocol_minor_version := 1,
              header := [\<lparr>field_name = ''host'', field_value = ''b'' @ CRLF\<rparr>,
                         \<lparr>field_name = ''X-K'', field_value = ''1'' @ CRLF\<rparr>,
                         \<lparr>field_name = ''Host'', field_value = ''a'' @ CRLF\<rparr>],
              length_body := 0, body := []\<rparr>, [])
   \<and> wire_fields (''Host: a'' @ CRLF @ ''X-K: 1'' @ CRLF @ ''host: b'' @ CRLF @ CRLF)
     = Inr ([\<lparr>field_name = ''Host'', field_value = ''a'' @ CRLF\<rparr>,
             \<lparr>field_name = ''X-K'', field_value = ''1'' @ CRLF\<rparr>,
             \<lparr>field_name = ''host'', field_value = ''b'' @ CRLF\<rparr>], [])
   \<and> lookup_header_field_value
        (blank_request\<lparr>method_req := ''GET'', path := ''/'', protocol_minor_version := 1,
              header := [\<lparr>field_name = ''host'', field_value = ''b'' @ CRLF\<rparr>,
                         \<lparr>field_name = ''X-K'', field_value = ''1'' @ CRLF\<rparr>,
                         \<lparr>field_name = ''Host'', field_value = ''a'' @ CRLF\<rparr>],
              length_body := 0, body := []\<rparr>) ''HOST''
     = Some (''b'' @ CRLF)"
proof -
  have sn: "show_nat (Suc 0) = ''1''" by code_simp
  have up: "uppcase ''get'' = ''GET''" by code_simp
  let ?rq = "blank_request\<lparr>method_req := ''GET'', path := ''/'', protocol_minor_version := 1\<rparr>"
  let ?h1 = "\<lparr>field_name = ''Host'', field_value = ''a'' @ CRLF\<rparr>"
  let ?h2 = "\<lparr>field_name = ''X-K'', field_value = ''1'' @ CRLF\<rparr>"
  let ?h3 = "\<lparr>field_name = ''host'', field_value = ''b'' @ CRLF\<rparr>"
  let ?i3 = "''host'' @ CHR '':'' # ('' b'' @ [CR]) @ LF # CR # LF # []"
  let ?i2 = "''X-K'' @ CHR '':'' # ('' 1'' @ [CR]) @ LF # ?i3"
  let ?i1 = "''Host'' @ CHR '':'' # ('' a'' @ [CR]) @ LF # ?i2"
  let ?R = "?rq\<lparr>header := [?h3, ?h2, ?h1], length_body := 0, body := []\<rparr>"
  have rl: "read_request_line blank_request (request_line ''get'' ''/'' 1 @ ?i1) = Inr (?rq, ?i1)"
  proof -
    have "read_request_line blank_request (request_line ''get'' ''/'' 1 @ ?i1) =
       Inr (blank_request\<lparr>method_req := uppcase ''get'', path := ''/'',
              protocol_minor_version := int 1\<rparr>, ?i1)"
      by (rule read_request_line_valid) (simp_all add: token_def request_line_def sn BUFSIZ_def)
    then show ?thesis by (simp add: up)
  qed
  have f1: "read_header_field ?i1 = Inr (Some ?h1, ?i2)"
    using read_header_field_line [of "''Host''" "'' a'' @ [CR]" ?i2] by (simp add: BUFSIZ_def)
  have f2: "read_header_field ?i2 = Inr (Some ?h2, ?i3)"
    using read_header_field_line [of "''X-K''" "'' 1'' @ [CR]" ?i3] by (simp add: BUFSIZ_def)
  have f3: "read_header_field ?i3 = Inr (Some ?h3, CR # LF # [])"
    using read_header_field_line [of "''host''" "'' b'' @ [CR]" "CR # LF # []"]
    by (simp add: BUFSIZ_def)
  have hf: "read_header_fields ?i1 [] = Inr ([?h3, ?h2, ?h1], [])"
    by (simp only: read_header_fields_step [OF f1] read_header_fields_step [OF f2]
        read_header_fields_step [OF f3] read_header_fields_end)
  have wf: "wire_fields ?i1 = Inr ([?h1, ?h2, ?h3], [])"
    by (simp only: wire_fields_step [OF f1] wire_fields_step [OF f2] wire_fields_step [OF f3]
        wire_fields_end sum.case prod.case)
  have nl: "lookup_loop [?h3, ?h2, ?h1] ''Content-Length'' = None"
  proof -
    have "map tolower ''host'' \<noteq> map tolower ''Content-Length''"
      and "map tolower ''X-K'' \<noteq> map tolower ''Content-Length''"
      and "map tolower ''Host'' \<noteq> map tolower ''Content-Length''"
      by simp_all
    then show ?thesis by (simp add: strcasecmp_def)
  qed
  have rr: "read_request (request_line ''get'' ''/'' 1 @ ?i1) = Inr (?R, [])"
    unfolding read_request_after_header [OF rl hf] nl by simp
  have la: "last_appearance [?h1, ?h2, ?h3] ''HOST'' = Some (''b'' @ CRLF)"
  proof -
    have "map tolower ''Host'' = map tolower ''HOST''"
      and "map tolower ''host'' = map tolower ''HOST''" by code_simp+
    moreover have "map tolower ''X-K'' \<noteq> map tolower ''HOST''" by simp
    ultimately show ?thesis by (simp add: last_appearance_def strcasecmp_def)
  qed
  from header_order [of "request_line ''get'' ''/'' 1 @ ?i1" ?R "[]"] rr
  obtain req1 in1 ws in2 where
    a: "read_request_line blank_request (request_line ''get'' ''/'' 1 @ ?i1) = Inr (req1, in1)"
    and b: "wire_fields in1 = Inr (ws, in2)"
    and c: "\<forall>name. lookup_header_field_value ?R name = last_appearance ws name"
    by blast
  from a rl have "in1 = ?i1" by simp
  with b wf have "ws = [?h1, ?h2, ?h3]" by simp
  with c la have "lookup_header_field_value ?R ''HOST'' = Some (''b'' @ CRLF)" by simp
  with rr wf show ?thesis by (simp add: request_line_def sn)
qed

end
